theory Spec2Isabelle
  imports Complex_Main "HOL-Library.List_Lexorder" "HOL-Library.Char_ord"
begin

section \<open>Python values used by matchmaker.py\<close>

text \<open>
  The development models \<open>src/matchmaker.py\<close>: the classes \<open>MatchTracker\<close> and
  \<open>MatchMaker\<close>. The copy under \<open>src/date_matching/matching\<close> has the same
  \<open>MatchMaker\<close>, but for the problem name, the path of the LP dump and one log line.
  Logging and printing have no effect on what the functions return and are left out, as
  is the file that \<open>writeLP\<close> writes; what \<open>solve\<close> prints is returned as a record.
  Numbers are modelled as reals.

  The exceptions the modelled code can raise. A function that can raise returns
  \<open>error + 'a\<close>, with \<open>Inl\<close> for the exception.
\<close>

datatype error =
  KeyError | IndexError | TypeError | ValueError | ZeroDivisionError | AttributeError

text \<open>Sequencing: an exception in the first computation skips the rest.\<close>

definition bindE :: "error + 'a \<Rightarrow> ('a \<Rightarrow> error + 'b) \<Rightarrow> error + 'b" where
  "bindE m f = (case m of Inl e \<Rightarrow> Inl e | Inr x \<Rightarrow> f x)"

text \<open>A list comprehension whose element expression can raise: the first exception wins.\<close>

fun mapE :: "('a \<Rightarrow> error + 'b) \<Rightarrow> 'a list \<Rightarrow> error + 'b list" where
  "mapE f [] = Inr []"
| "mapE f (x # xs) =
     (case f x of
        Inl e \<Rightarrow> Inl e
      | Inr y \<Rightarrow> (case mapE f xs of Inl e \<Rightarrow> Inl e | Inr ys \<Rightarrow> Inr (y # ys)))"

text \<open>A list comprehension whose \<open>if\<close> condition can raise.\<close>

fun filterE :: "('a \<Rightarrow> error + bool) \<Rightarrow> 'a list \<Rightarrow> error + 'a list" where
  "filterE c [] = Inr []"
| "filterE c (x # xs) =
     (case c x of
        Inl e \<Rightarrow> Inl e
      | Inr b \<Rightarrow> (case filterE c xs of
                     Inl e \<Rightarrow> Inl e
                   | Inr ys \<Rightarrow> Inr (if b then x # ys else ys)))"

text \<open>\<open>xs[i]\<close> for a non-negative index: IndexError out of range.\<close>

definition getitem :: "'a list \<Rightarrow> nat \<Rightarrow> error + 'a" where
  "getitem xs i = (if i < length xs then Inr (xs ! i) else Inl IndexError)"

text \<open>\<open>d[k]\<close> on a dict: KeyError for a missing key.\<close>

definition dict_get :: "('k \<rightharpoonup> 'v) \<Rightarrow> 'k \<Rightarrow> error + 'v" where
  "dict_get d k = (case d k of None \<Rightarrow> Inl KeyError | Some v \<Rightarrow> Inr v)"

text \<open>\<open>range(n)\<close>.\<close>

definition range_py :: "nat \<Rightarrow> nat list" where
  "range_py n = [0..<n]"

text \<open>
  \<open>itertools.combinations(xs, r)\<close>: the \<open>r\<close>-element subsequences of \<open>xs\<close>, in
  lexicographic order of positions. A Python tuple is modelled as a list.
\<close>

fun combinations :: "'a list \<Rightarrow> nat \<Rightarrow> 'a list list" where
  "combinations xs 0 = [[]]"
| "combinations [] (Suc r) = []"
| "combinations (x # xs) (Suc r) =
     map ((#) x) (combinations xs r) @ combinations xs (Suc r)"

text \<open>
  \<open>pulp.allcombinations(orgset, k)\<close>: all combinations of \<open>orgset\<close> with up to \<open>k\<close>
  items, that is the chain of \<open>combinations(orgset, i)\<close> for \<open>i\<close> in \<open>range(1, k + 1)\<close>.
\<close>

definition allcombinations :: "'a list \<Rightarrow> nat \<Rightarrow> 'a list list" where
  "allcombinations orgset k = concat (map (combinations orgset) [1..<k + 1])"

section \<open>Candidate pairs\<close>

text \<open>
  A candidate-pair key is the Python tuple \<open>(i, j)\<close>, written \<open>[i, j]\<close>.
  \<open>MatchTracker.__init__\<close> computes
  \<^verbatim>\<open>[tuple(c) for c in allcombinations(range(len(persons)), k=2) if len(set(c)) == 2]\<close>
  and then appends \<^verbatim>\<open>[(idx, idx) for idx in range(len(persons))]\<close>.
\<close>

type_synonym pmatch = "nat list"

definition possible_matches_of :: "nat \<Rightarrow> pmatch list" where
  "possible_matches_of n =
     filter (\<lambda>c. card (set c) = 2) (allcombinations (range_py n) 2)
     @ map (\<lambda>idx. [idx, idx]) (range_py n)"

section \<open>The pulp objects the model is built from\<close>

datatype LpCategory = LpContinuous | LpInteger | LpBinary

datatype LpSense = LpMinimize | LpMaximize

datatype LpConstraintSense = LpConstraintLE | LpConstraintEQ | LpConstraintGE

datatype LpStatus =
  LpStatusNotSolved | LpStatusOptimal | LpStatusInfeasible | LpStatusUnbounded
| LpStatusUndefined

text \<open>
  A decision variable. Variables are shared objects: the dict \<open>variables\<close> of the
  tracker is the store that holds their state, and expressions refer to a variable by the
  key it was created for. \<open>varValue\<close> is \<open>None\<close> until a solver writes it.
\<close>

record LpVariable =
  var_key :: pmatch
  lowBound :: "real option"
  upBound :: "real option"
  cat :: LpCategory
  varValue :: "real option"

text \<open>A fresh variable has no value.\<close>

definition LpVariable_init ::
  "pmatch \<Rightarrow> real option \<Rightarrow> real option \<Rightarrow> LpCategory \<Rightarrow> LpVariable" where
  "LpVariable_init i lo up c =
     \<lparr>var_key = i, lowBound = lo, upBound = up, cat = c, varValue = None\<rparr>"

text \<open>\<open>LpVariable.dicts(name, indices, lowBound, upBound, cat)\<close>: one fresh variable per index.\<close>

definition LpVariable_dicts ::
  "pmatch list \<Rightarrow> real option \<Rightarrow> real option \<Rightarrow> LpCategory \<Rightarrow> (pmatch \<rightharpoonup> LpVariable)" where
  "LpVariable_dicts indices lo up c = map_of (map (\<lambda>i. (i, LpVariable_init i lo up c)) indices)"

text \<open>
  A linear expression: pulp keeps it as a dict from variables to coefficients, and a
  constant. The model holds the products (variable, coefficient) of the match variables
  in the order added, no sum built here holding a variable twice, and apart from them
  the coefficient of \<open>__dummy\<close>, the variable pulp adds to an objective without
  variables; \<open>None\<close> when the dict has no such key.
\<close>

record LpAffineExpression =
  expr_terms :: "(pmatch \<times> real) list"
  expr_dummy :: "real option"
  expr_constant :: real

text \<open>The expression of a single variable.\<close>

definition var_expr :: "LpVariable \<Rightarrow> LpAffineExpression" where
  "var_expr v = \<lparr>expr_terms = [(var_key v, 1)], expr_dummy = None, expr_constant = 0\<rparr>"

text \<open>
  \<open>e * c\<close> for a number \<open>c\<close>: the products are copied, multiplied, only when \<open>c\<close> is not
  \<open>0\<close>; the product with \<open>0\<close> is the empty expression.
\<close>

definition expr_times :: "LpAffineExpression \<Rightarrow> real \<Rightarrow> LpAffineExpression" where
  "expr_times e c =
     (if c \<noteq> 0
      then \<lparr>expr_terms = map (\<lambda>(v, x). (v, c * x)) (expr_terms e),
            expr_dummy = map_option (\<lambda>x. c * x) (expr_dummy e),
            expr_constant = expr_constant e * c\<rparr>
      else \<lparr>expr_terms = [], expr_dummy = None, expr_constant = 0\<rparr>)"

text \<open>\<open>variable * score\<close>.\<close>

definition var_times :: "LpVariable \<Rightarrow> real \<Rightarrow> LpAffineExpression" where
  "var_times v c = expr_times (var_expr v) c"

text \<open>Adding \<open>b\<close> to the coefficient a dict holds, or does not hold, for a variable.\<close>

definition add_coef :: "real option \<Rightarrow> real option \<Rightarrow> real option" where
  "add_coef a b =
     (case b of
        None \<Rightarrow> a
      | Some y \<Rightarrow> Some ((case a of None \<Rightarrow> 0 | Some x \<Rightarrow> x) + y))"

text \<open>\<open>lpSum\<close> adds the expressions of a list up.\<close>

definition lpSum :: "LpAffineExpression list \<Rightarrow> LpAffineExpression" where
  "lpSum es = \<lparr>expr_terms = concat (map expr_terms es),
               expr_dummy = fold (\<lambda>e a. add_coef a (expr_dummy e)) es None,
               expr_constant = sum_list (map expr_constant es)\<rparr>"

record LpConstraint =
  lhs :: LpAffineExpression
  csense :: LpConstraintSense
  rhs :: real

text \<open>\<open>e == c\<close> and \<open>e <= c\<close> on an expression build a constraint.\<close>

definition expr_eq :: "LpAffineExpression \<Rightarrow> real \<Rightarrow> LpConstraint" where
  "expr_eq e c = \<lparr>lhs = e, csense = LpConstraintEQ, rhs = c\<rparr>"

definition expr_le :: "LpAffineExpression \<Rightarrow> real \<Rightarrow> LpConstraint" where
  "expr_le e c = \<lparr>lhs = e, csense = LpConstraintLE, rhs = c\<rparr>"

record LpProblem =
  prob_name :: string
  prob_sense :: LpSense
  objective :: "LpAffineExpression option"
  constraints :: "LpConstraint list"
  status :: LpStatus

definition LpProblem_init :: "string \<Rightarrow> LpSense \<Rightarrow> LpProblem" where
  "LpProblem_init nm s =
     \<lparr>prob_name = nm, prob_sense = s, objective = None, constraints = [],
      status = LpStatusNotSolved\<rparr>"

text \<open>\<open>prob += expression\<close> sets the objective; \<open>prob += constraint\<close> adds a constraint.\<close>

definition set_objective :: "LpProblem \<Rightarrow> LpAffineExpression \<Rightarrow> LpProblem" where
  "set_objective p e = p\<lparr>objective := Some e\<rparr>"

definition add_constraint :: "LpProblem \<Rightarrow> LpConstraint \<Rightarrow> LpProblem" where
  "add_constraint p c = p\<lparr>constraints := constraints p @ [c]\<rparr>"

text \<open>
  \<open>writeLP\<close>, but for the file it writes. To write an objective without variables it
  adds \<open>__dummy\<close> to the objective (\<open>fixObjective\<close>) and subtracts it afterwards
  (\<open>restoreObjective\<close>), which leaves \<open>__dummy\<close> in the objective with coefficient \<open>0\<close>.
  Every constraint built here holds a variable, so the constraints stay as they are.
\<close>

definition isNumericalConstant :: "LpAffineExpression \<Rightarrow> bool" where
  "isNumericalConstant e = (expr_terms e = [] \<and> expr_dummy e = None)"

definition add_dummy :: "real \<Rightarrow> LpAffineExpression \<Rightarrow> LpAffineExpression" where
  "add_dummy c e = e\<lparr>expr_dummy := add_coef (expr_dummy e) (Some c)\<rparr>"

definition writeLP :: "LpProblem \<Rightarrow> LpProblem" where
  "writeLP p =
     (case objective p of
        None \<Rightarrow> p
      | Some e \<Rightarrow>
          if isNumericalConstant e
          then p\<lparr>objective := Some (add_dummy (- 1) (add_dummy 1 e))\<rparr>
          else p)"

text \<open>
  \<open>value(e)\<close> under the current variable values: \<open>None\<close> as soon as a variable of the
  expression has no value. \<open>__dummy\<close> never has one: the solver's values are written
  into every variable but \<open>__dummy\<close>.
\<close>

fun terms_value :: "(pmatch \<Rightarrow> real option) \<Rightarrow> (pmatch \<times> real) list \<Rightarrow> real \<Rightarrow> real option" where
  "terms_value vals [] s = Some s"
| "terms_value vals ((k, c) # ts) s =
     (case vals k of None \<Rightarrow> None | Some x \<Rightarrow> terms_value vals ts (s + x * c))"

definition value_py :: "(pmatch \<Rightarrow> real option) \<Rightarrow> LpAffineExpression \<Rightarrow> real option" where
  "value_py vals e =
     (case expr_dummy e of
        Some c \<Rightarrow> None
      | None \<Rightarrow> terms_value vals (expr_terms e) (expr_constant e))"

section \<open>Participants\<close>

text \<open>
  The class \<open>Person\<close> is not part of the modelled file. Its operations are parameters:
  a participant is a value of type \<open>'p\<close>, the record below holds the methods and
  attributes matchmaker.py uses, and \<open>gender_title p\<close> stands for
  \<open>p.gender.value.title()\<close>. The comparison \<open>person1 != person2\<close> is inequality on
  \<open>'p\<close>; where \<open>Person\<close> defines no comparison of its own, Python compares objects
  by identity and the participants of a roster are pairwise unequal.
\<close>

record 'p Person =
  matrix_similarity :: "'p \<Rightarrow> 'p \<Rightarrow> real"
  is_pairing_preferred :: "'p \<Rightarrow> 'p \<Rightarrow> real"
  is_pairable :: "'p \<Rightarrow> 'p \<Rightarrow> real"
  day_choice :: "'p \<Rightarrow> string"
  gender_title :: "'p \<Rightarrow> string"

section \<open>MatchTracker\<close>

record 'p MatchTracker =
  persons :: "'p list"
  possible_matches :: "pmatch list"
  variables :: "pmatch \<rightharpoonup> LpVariable"

definition MatchTracker_init :: "'p list \<Rightarrow> 'p MatchTracker" where
  "MatchTracker_init ps =
     (let pms = possible_matches_of (length ps)
      in \<lparr>persons = ps, possible_matches = pms,
          variables = LpVariable_dicts pms (Some 0) (Some 1) LpInteger\<rparr>)"

definition get_variables_for_person :: "'p MatchTracker \<Rightarrow> nat \<Rightarrow> error + LpVariable list" where
  "get_variables_for_person mt idx =
     mapE (dict_get (variables mt))
       (filter (\<lambda>possible_match. idx \<in> set possible_match) (possible_matches mt))"

text \<open>\<open>(self.persons[possible_match[0]], self.persons[possible_match[1]])\<close>.\<close>

definition people_of :: "'p list \<Rightarrow> pmatch \<Rightarrow> error + ('p \<times> 'p)" where
  "people_of ps possible_match =
     bindE (getitem possible_match 0) (\<lambda>i.
     bindE (getitem ps i) (\<lambda>person1.
     bindE (getitem possible_match 1) (\<lambda>j.
     bindE (getitem ps j) (\<lambda>person2. Inr (person1, person2)))))"

definition get_variables_to_people ::
  "'p MatchTracker \<Rightarrow> error + (LpVariable \<times> 'p \<times> 'p) list" where
  "get_variables_to_people mt =
     mapE (\<lambda>possible_match.
             bindE (dict_get (variables mt) possible_match) (\<lambda>v.
             bindE (people_of (persons mt) possible_match) (\<lambda>pp. Inr (v, pp))))
       (possible_matches mt)"

text \<open>
  \<open>self.variables[possible_match].varValue > 0\<close>: comparing \<open>None\<close> with \<open>0\<close> raises
  TypeError.
\<close>

definition is_true_match :: "'p MatchTracker \<Rightarrow> pmatch \<Rightarrow> error + bool" where
  "is_true_match mt possible_match =
     bindE (dict_get (variables mt) possible_match) (\<lambda>v.
       case varValue v of None \<Rightarrow> Inl TypeError | Some x \<Rightarrow> Inr (x > 0))"

definition get_true_possible_matches :: "'p MatchTracker \<Rightarrow> error + pmatch list" where
  "get_true_possible_matches mt = filterE (is_true_match mt) (possible_matches mt)"

definition get_true_variables :: "'p MatchTracker \<Rightarrow> error + LpVariable list" where
  "get_true_variables mt =
     bindE (get_true_possible_matches mt) (mapE (dict_get (variables mt)))"

definition get_matches :: "'p MatchTracker \<Rightarrow> error + ('p \<times> 'p) list" where
  "get_matches mt =
     bindE (get_true_possible_matches mt) (mapE (people_of (persons mt)))"

section \<open>MatchMaker\<close>

record 'p MatchMaker =
  mm_persons :: "'p list"
  match_tracker :: "'p MatchTracker"
  prob :: LpProblem

text \<open>\<open>_initialise_participants\<close>: one person per row, in row order.\<close>

definition initialise_participants :: "('row \<Rightarrow> 'p) \<Rightarrow> 'row list \<Rightarrow> 'p list" where
  "initialise_participants build rows = fold (\<lambda>row ps. ps @ [build row]) rows []"

text \<open>The scoring function of \<open>_initialse_problem\<close>, for one triple.\<close>

definition score_of :: "'p Person \<Rightarrow> 'p \<Rightarrow> 'p \<Rightarrow> real" where
  "score_of P person1 person2 =
     (let reward = matrix_similarity P person1 person2;
          penalty = 1 - is_pairing_preferred P person1 person2;
          score = reward - (0.1 * penalty)
      in score)"

definition score_vars_of :: "'p Person \<Rightarrow> (LpVariable \<times> 'p \<times> 'p) list \<Rightarrow> LpAffineExpression list" where
  "score_vars_of P vps =
     fold (\<lambda>(variable, person1, person2) score_vars.
             score_vars @ [var_times variable (score_of P person1 person2)]) vps []"

text \<open>The loop adding one coverage constraint per index of \<open>enumerate(self.persons)\<close>.\<close>

fun add_coverage :: "'p MatchTracker \<Rightarrow> nat list \<Rightarrow> LpProblem \<Rightarrow> error + LpProblem" where
  "add_coverage mt [] p = Inr p"
| "add_coverage mt (idx # idxs) p =
     bindE (get_variables_for_person mt idx) (\<lambda>variables_for_person.
       add_coverage mt idxs
         (add_constraint p (expr_eq (lpSum (map var_expr variables_for_person)) 1)))"

text \<open>The loop adding \<open>variable <= person1.is_pairable(person2)\<close> for every triple.\<close>

definition add_eligibility ::
  "'p Person \<Rightarrow> (LpVariable \<times> 'p \<times> 'p) list \<Rightarrow> LpProblem \<Rightarrow> LpProblem" where
  "add_eligibility P vps p =
     fold (\<lambda>(variable, person1, person2) q.
             add_constraint q (expr_le (var_expr variable) (is_pairable P person1 person2)))
       vps p"

definition initialse_problem ::
  "'p Person \<Rightarrow> 'p list \<Rightarrow> 'p MatchTracker \<Rightarrow> error + LpProblem" where
  "initialse_problem P ps mt =
     (let prob0 = LpProblem_init ''Date_Pairing_Problem'' LpMaximize
      in bindE (get_variables_to_people mt) (\<lambda>vps.
         let prob1 = set_objective prob0 (lpSum (score_vars_of P vps))
         in bindE (add_coverage mt (range_py (length ps)) prob1) (\<lambda>prob2.
            bindE (get_variables_to_people mt) (\<lambda>vps'.
              Inr (writeLP (add_eligibility P vps' prob2))))))"

text \<open>\<open>MatchMaker.__init__\<close>.\<close>

definition MatchMaker_init :: "'p Person \<Rightarrow> ('row \<Rightarrow> 'p) \<Rightarrow> 'row list \<Rightarrow> error + 'p MatchMaker" where
  "MatchMaker_init P build rows =
     (let ps = initialise_participants build rows;
          mt = MatchTracker_init ps
      in bindE (initialse_problem P ps mt) (\<lambda>pr.
           Inr \<lparr>mm_persons = ps, match_tracker = mt, prob = pr\<rparr>))"

subsection \<open>Solving and reporting\<close>

text \<open>
  The solver is a black box: its outcome is a status and a value (or none) for every
  variable. \<open>self.prob.solve(...)\<close> records the status and writes the values into the
  variables.
\<close>

definition write_values ::
  "(pmatch \<Rightarrow> real option) \<Rightarrow> (pmatch \<rightharpoonup> LpVariable) \<Rightarrow> (pmatch \<rightharpoonup> LpVariable)" where
  "write_values asg vars = (\<lambda>k. map_option (\<lambda>v. v\<lparr>varValue := asg (var_key v)\<rparr>) (vars k))"

definition prob_solve ::
  "LpStatus \<times> (pmatch \<Rightarrow> real option) \<Rightarrow> 'p MatchMaker \<Rightarrow> 'p MatchMaker" where
  "prob_solve outcome mm =
     mm\<lparr>match_tracker :=
          (match_tracker mm)\<lparr>variables := write_values (snd outcome) (variables (match_tracker mm))\<rparr>,
        prob := (prob mm)\<lparr>status := fst outcome\<rparr>\<rparr>"

text \<open>The current value of the variable stored under a key.\<close>

definition var_values :: "'p MatchTracker \<Rightarrow> pmatch \<Rightarrow> real option" where
  "var_values mt k = (case variables mt k of None \<Rightarrow> None | Some v \<Rightarrow> varValue v)"

text \<open>
  \<open>2*value(self.prob.objective) / len(self.persons)\<close>: TypeError on \<open>2*None\<close> when the
  value is \<open>None\<close>, ZeroDivisionError when there is a value and no person.
\<close>

definition mean_score :: "'p MatchMaker \<Rightarrow> error + real" where
  "mean_score mm =
     (case objective (prob mm) of
        None \<Rightarrow> Inl AttributeError
      | Some e \<Rightarrow>
          (case value_py (var_values (match_tracker mm)) e of
             None \<Rightarrow> Inl TypeError
           | Some v \<Rightarrow>
               if length (mm_persons mm) = 0 then Inl ZeroDivisionError
               else Inr (2 * v / real (length (mm_persons mm)))))"

definition get_day_or_either :: "string \<Rightarrow> string \<Rightarrow> string" where
  "get_day_or_either day1 day2 = (if day1 \<noteq> ''Either'' then day1 else day2)"

text \<open>\<open>d[k].append(v)\<close> on a \<open>defaultdict(list)\<close>, kept in insertion order of the keys.\<close>

fun dict_append :: "('k \<times> 'v list) list \<Rightarrow> 'k \<Rightarrow> 'v \<Rightarrow> ('k \<times> 'v list) list" where
  "dict_append [] k v = [(k, [v])]"
| "dict_append ((k', vs) # d) k v =
     (if k' = k then (k', vs @ [v]) # d else (k', vs) # dict_append d k v)"

text \<open>\<open>d[k] += 1\<close> on a \<open>defaultdict(int)\<close>.\<close>

fun dict_incr :: "('k \<times> int) list \<Rightarrow> 'k \<Rightarrow> ('k \<times> int) list" where
  "dict_incr [] k = [(k, 1)]"
| "dict_incr ((k', n) # d) k =
     (if k' = k then (k', n + 1) # d else (k', n) # dict_incr d k)"

text \<open>\<open>idx1, idx2 = possible_match\<close>: ValueError unless the tuple has two items.\<close>

fun unpack2 :: "pmatch \<Rightarrow> error + (nat \<times> nat)" where
  "unpack2 [idx1, idx2] = Inr (idx1, idx2)"
| "unpack2 _ = Inl ValueError"

text \<open>The first loop of \<open>log_matches\<close>, on the state \<open>(day_dict, unmatched)\<close>.\<close>

fun log_matches_loop ::
  "'p Person \<Rightarrow> 'p list \<Rightarrow> pmatch list \<Rightarrow> (string \<times> pmatch list) list \<times> nat list \<Rightarrow>
   error + ((string \<times> pmatch list) list \<times> nat list)" where
  "log_matches_loop P ps [] st = Inr st"
| "log_matches_loop P ps (pm # rest) st =
     bindE (unpack2 pm) (\<lambda>(idx1, idx2).
       if idx1 = idx2 then log_matches_loop P ps rest (fst st, snd st @ [idx1])
       else
         bindE (getitem ps idx1) (\<lambda>p1.
         bindE (getitem ps idx2) (\<lambda>p2.
           log_matches_loop P ps rest
             (dict_append (fst st) (get_day_or_either (day_choice P p1) (day_choice P p2))
                [idx1, idx2],
              snd st))))"

text \<open>\<open>log_stats\<close>: the count of matched pairs per unordered pair of genders.\<close>

definition log_stats_step :: "'p Person \<Rightarrow> 'p \<times> 'p \<Rightarrow> (string \<times> int) list \<Rightarrow> (string \<times> int) list" where
  "log_stats_step P pp num =
     (case pp of (person1, person2) \<Rightarrow>
        if person1 \<noteq> person2 then
          (let g1 = gender_title P person1; g2 = gender_title P person2;
               g1' = min g1 g2; g2' = max g1 g2
           in dict_incr num (g1' @ ''/'' @ g2'))
        else num)"

definition log_stats :: "'p Person \<Rightarrow> 'p MatchTracker \<Rightarrow> error + (string \<times> int) list" where
  "log_stats P mt = bindE (get_matches mt) (\<lambda>ms. Inr (fold (log_stats_step P) ms []))"

text \<open>What a run reports.\<close>

record Report =
  rep_status :: LpStatus
  rep_mean_score :: real
  rep_scores :: "real list"
  rep_day_dict :: "(string \<times> pmatch list) list"
  rep_unmatched :: "nat list"
  rep_num :: "(string \<times> int) list"
  rep_num_matches :: int
  rep_not_matched :: int

definition log_matches ::
  "'p Person \<Rightarrow> 'p MatchMaker \<Rightarrow>
   error + ((string \<times> pmatch list) list \<times> nat list \<times> (string \<times> int) list)" where
  "log_matches P mm =
     bindE (get_true_possible_matches (match_tracker mm)) (\<lambda>tpm.
     bindE (log_matches_loop P (mm_persons mm) tpm ([], [])) (\<lambda>(day_dict, unmatched).
     bindE (log_stats P (match_tracker mm)) (\<lambda>num.
       Inr (day_dict, unmatched, num))))"

text \<open>The loop of \<open>solve\<close> over the matches, on the state \<open>(scores, num_matches)\<close>.\<close>

definition solve_step :: "'p Person \<Rightarrow> 'p \<times> 'p \<Rightarrow> real list \<times> int \<Rightarrow> real list \<times> int" where
  "solve_step P pp st =
     (case pp of (person1, person2) \<Rightarrow>
        (fst st @ [matrix_similarity P person1 person2],
         if person1 \<noteq> person2 then snd st + 2 else snd st))"

definition solve ::
  "'p Person \<Rightarrow> 'p MatchMaker \<Rightarrow> LpStatus \<times> (pmatch \<Rightarrow> real option) \<Rightarrow> error + Report" where
  "solve P mm0 outcome =
     (let mm = prob_solve outcome mm0
      in bindE (mean_score mm) (\<lambda>mean.
         bindE (get_matches (match_tracker mm)) (\<lambda>ms.
           let (scores, num_matches) = fold (solve_step P) ms ([], 0)
           in bindE (log_matches P mm) (\<lambda>(day_dict, unmatched, num).
                Inr \<lparr>rep_status = status (prob mm), rep_mean_score = mean,
                     rep_scores = scores, rep_day_dict = day_dict,
                     rep_unmatched = unmatched, rep_num = num,
                     rep_num_matches = num_matches,
                     rep_not_matched = int (length (mm_persons mm)) - num_matches\<rparr>))))"

section \<open>Solved runs\<close>

text \<open>
  A solved run is a run whose solver gave every variable a value, the values respecting
  the variables' bounds and category and every constraint of the problem.
  \<open>expr_value\<close> is the value of an expression under an assignment of the match
  variables; no constraint holds \<open>__dummy\<close>, and an objective holds it with coefficient
  \<open>0\<close> only.
\<close>

definition expr_value :: "(pmatch \<Rightarrow> real) \<Rightarrow> LpAffineExpression \<Rightarrow> real" where
  "expr_value val e = expr_constant e + sum_list (map (\<lambda>(k, c). c * val k) (expr_terms e))"

definition constraint_holds :: "(pmatch \<Rightarrow> real) \<Rightarrow> LpConstraint \<Rightarrow> bool" where
  "constraint_holds val c =
     (case csense c of
        LpConstraintLE \<Rightarrow> expr_value val (lhs c) \<le> rhs c
      | LpConstraintEQ \<Rightarrow> expr_value val (lhs c) = rhs c
      | LpConstraintGE \<Rightarrow> expr_value val (lhs c) \<ge> rhs c)"

definition var_ok :: "LpVariable \<Rightarrow> real \<Rightarrow> bool" where
  "var_ok v x =
     ((case lowBound v of None \<Rightarrow> True | Some l \<Rightarrow> l \<le> x) \<and>
      (case upBound v of None \<Rightarrow> True | Some u \<Rightarrow> x \<le> u) \<and>
      (case cat v of
         LpContinuous \<Rightarrow> True
       | LpInteger \<Rightarrow> real_of_int \<lfloor>x\<rfloor> = x
       | LpBinary \<Rightarrow> x = 0 \<or> x = 1))"

definition feasible :: "'p MatchMaker \<Rightarrow> (pmatch \<Rightarrow> real) \<Rightarrow> bool" where
  "feasible mm val =
     (list_all (\<lambda>k. case variables (match_tracker mm) k of
                       None \<Rightarrow> False
                     | Some v \<Rightarrow> var_ok v (val k))
        (possible_matches (match_tracker mm))
      \<and> list_all (constraint_holds val) (constraints (prob mm)))"

text \<open>The solver outcome of a run that gave every variable the value \<open>val\<close> assigns.\<close>

definition assigned :: "(pmatch \<Rightarrow> real) \<Rightarrow> pmatch \<Rightarrow> real option" where
  "assigned val k = Some (val k)"

section \<open>A roster of three participants\<close>

text \<open>
  Participants are their own rows \<open>0\<close>, \<open>1\<close> and \<open>2\<close>. Every two distinct participants have
  similarity \<open>1\<close>; participants \<open>0\<close> and \<open>2\<close> are not pairable, and pairing participants
  \<open>1\<close> and \<open>2\<close> is not preferred.
\<close>

definition example_person :: "nat Person" where
  "example_person =
     \<lparr>matrix_similarity = (\<lambda>a b. if a = b then 0 else 1),
      is_pairing_preferred = (\<lambda>a b. if a + b = 3 then 0 else 1),
      is_pairable = (\<lambda>a b. if a + b = 2 \<and> a \<noteq> b then 0 else 1),
      day_choice = (\<lambda>a. if a = 0 then ''Either'' else if a = 1 then ''Monday'' else ''Tuesday''),
      gender_title = (\<lambda>a. if a = 0 then ''Woman'' else ''Man'')\<rparr>"

definition example_rows :: "nat list" where
  "example_rows = [0, 1, 2]"

text \<open>Participants \<open>0\<close> and \<open>1\<close> matched, participant \<open>2\<close> unmatched.\<close>

definition example_val :: "pmatch \<Rightarrow> real" where
  "example_val k = (if k = [0, 1] \<or> k = [2, 2] then 1 else 0)"

text \<open>Every candidate pair selected at once, and no candidate pair selected.\<close>

definition all_ones :: "pmatch \<Rightarrow> real" where
  "all_ones k = 1"

definition all_zeros :: "pmatch \<Rightarrow> real" where
  "all_zeros k = 0"

definition example_mm :: "nat MatchMaker" where
  "example_mm = projr (MatchMaker_init example_person id example_rows)"

section \<open>Rosters on which nobody is pairable\<close>

text \<open>
  No participant is pairable with anybody, itself included: every coverage constraint
  asks a sum of variables to be \<open>1\<close>, the eligibility constraints ask every variable to
  be at most \<open>0\<close>. One roster has a single participant, the other one two.
\<close>

definition solo_person :: "nat Person" where
  "solo_person = example_person\<lparr>is_pairable := (\<lambda>a b. 0)\<rparr>"

definition solo_rows :: "nat list" where
  "solo_rows = [0]"

definition solo_mm :: "nat MatchMaker" where
  "solo_mm = projr (MatchMaker_init solo_person id solo_rows)"

definition barred_rows :: "nat list" where
  "barred_rows = [0, 1]"

definition barred_mm :: "nat MatchMaker" where
  "barred_mm = projr (MatchMaker_init solo_person id barred_rows)"

section \<open>A roster of two equal participants\<close>

text \<open>
  Two rows that build equal persons, for whom no pairing is preferred: each of the three
  candidate pairs has the score \<open>- 0.1\<close>, and the two participants are matched to each
  other.
\<close>

definition twin_person :: "nat Person" where
  "twin_person = example_person\<lparr>is_pairing_preferred := (\<lambda>a b. 0)\<rparr>"

definition twin_rows :: "nat list" where
  "twin_rows = [7, 7]"

definition twin_mm :: "nat MatchMaker" where
  "twin_mm = projr (MatchMaker_init twin_person id twin_rows)"

definition twin_val :: "pmatch \<Rightarrow> real" where
  "twin_val k = (if k = [0, 1] then 1 else 0)"

section \<open>Properties of the candidate pairs\<close>

lemma combinations_1: "combinations xs (Suc 0) = map (\<lambda>x. [x]) xs"
  by (induction xs) auto

lemma combinations_2_Cons:
  "combinations (x # xs) (Suc (Suc 0)) = map (\<lambda>y. [x, y]) xs @ combinations xs (Suc (Suc 0))"
  by (simp add: combinations_1)

lemma allcombinations_2:
  "allcombinations xs 2 = map (\<lambda>x. [x]) xs @ combinations xs (Suc (Suc 0))"
proof -
  have "[1..<2 + 1] = [Suc 0, Suc (Suc 0)]"
    by (simp add: upt_rec)
  then show ?thesis
    by (simp add: allcombinations_def combinations_1)
qed

lemma set_combinations_2:
  "sorted_wrt (<) xs \<Longrightarrow>
   set (combinations xs (Suc (Suc 0))) = {[a, b] | a b. a \<in> set xs \<and> b \<in> set xs \<and> a < (b::nat)}"
proof (induction xs)
  case Nil
  then show ?case by simp
next
  case (Cons x xs)
  then have lt: "\<forall>y\<in>set xs. x < y" and srt: "sorted_wrt (<) xs" by auto
  have "set (combinations (x # xs) (Suc (Suc 0)))
      = {[x, y] | y. y \<in> set xs} \<union> set (combinations xs (Suc (Suc 0)))"
    unfolding combinations_2_Cons by auto
  also have "\<dots> = {[x, y] | y. y \<in> set xs}
      \<union> {[a, b] | a b. a \<in> set xs \<and> b \<in> set xs \<and> a < b}"
    using Cons.IH [OF srt] by simp
  also have "\<dots> = {[a, b] | a b. a \<in> set (x # xs) \<and> b \<in> set (x # xs) \<and> a < b}"
    using lt by (auto dest: less_asym)
  finally show ?case .
qed

lemma distinct_combinations_2:
  "sorted_wrt (<) (xs::nat list) \<Longrightarrow> distinct (combinations xs (Suc (Suc 0)))"
proof (induction xs)
  case Nil
  then show ?case by simp
next
  case (Cons x xs)
  then have lt: "\<forall>y\<in>set xs. x < y" and srt: "sorted_wrt (<) xs" by auto
  have d: "distinct xs" using srt by (simp add: strict_sorted_iff)
  have "distinct (map (\<lambda>y. [x, y]) xs)"
    using d by (simp add: distinct_map inj_on_def)
  moreover have "set (map (\<lambda>y. [x, y]) xs) \<inter> set (combinations xs (Suc (Suc 0))) = {}"
    using lt by (auto simp: set_combinations_2 [OF srt])
  ultimately show ?case
    unfolding combinations_2_Cons using Cons.IH [OF srt] by simp
qed

lemma length_combinations_2:
  "length (combinations xs (Suc (Suc 0))) = length xs * (length xs - 1) div 2"
proof (induction xs)
  case Nil
  then show ?case by simp
next
  case (Cons x xs)
  have "length (combinations (x # xs) (Suc (Suc 0)))
      = length xs + length xs * (length xs - 1) div 2"
    unfolding combinations_2_Cons using Cons.IH by simp
  also have "\<dots> = (2 * length xs + length xs * (length xs - 1)) div 2"
    by simp
  also have "2 * length xs + length xs * (length xs - 1) = length (x # xs) * (length (x # xs) - 1)"
    by (cases "length xs") (simp_all add: algebra_simps)
  finally show ?case .
qed

text \<open>The real pairs, in the order the tracker lists them.\<close>

lemma filter_card2_singletons:
  "filter (\<lambda>c. card (set c) = 2) (map (\<lambda>x. [x]) xs) = []"
  by (induction xs) auto

lemma filter_card2_combinations:
  "sorted_wrt (<) (xs::nat list) \<Longrightarrow>
   filter (\<lambda>c. card (set c) = 2) (combinations xs (Suc (Suc 0))) = combinations xs (Suc (Suc 0))"
  by (rule filter_True) (auto simp: set_combinations_2)

lemma possible_matches_of_eq:
  "possible_matches_of n = combinations [0..<n] (Suc (Suc 0)) @ map (\<lambda>idx. [idx, idx]) [0..<n]"
  by (simp add: possible_matches_of_def range_py_def allcombinations_2
      filter_card2_singletons filter_card2_combinations)

lemma set_possible_matches_of:
  "set (possible_matches_of n) = {[i, j] | i j. i < j \<and> j < n} \<union> {[i, i] | i. i < n}"
  by (auto simp: possible_matches_of_eq set_combinations_2)

lemma distinct_possible_matches_of: "distinct (possible_matches_of n)"
  by (auto simp: possible_matches_of_eq distinct_combinations_2 set_combinations_2
      distinct_map inj_on_def)

lemma length_possible_matches_of: "length (possible_matches_of n) = n * (n + 1) div 2"
proof -
  have "length (possible_matches_of n) = n * (n - 1) div 2 + n"
    by (simp add: possible_matches_of_eq length_combinations_2)
  also have "\<dots> = (n * (n - 1) + 2 * n) div 2" by simp
  also have "n * (n - 1) + 2 * n = n * (n + 1)"
    by (cases n) (simp_all add: algebra_simps)
  finally show ?thesis .
qed

section \<open>Properties of the tracker\<close>

lemma bindE_Inr [simp]: "bindE (Inr x) f = f x"
  by (simp add: bindE_def)

lemma bindE_Inl [simp]: "bindE (Inl e) f = Inl e"
  by (simp add: bindE_def)

lemma mapE_Inr: "(\<And>x. x \<in> set xs \<Longrightarrow> f x = Inr (g x)) \<Longrightarrow> mapE f xs = Inr (map g xs)"
  by (induction xs) auto

lemma filterE_Inr:
  "(\<And>x. x \<in> set xs \<Longrightarrow> c x = Inr (p x)) \<Longrightarrow> filterE c xs = Inr (filter p xs)"
  by (induction xs) auto

lemma filterE_Inl:
  "\<exists>x\<in>set xs. c x = Inl e \<Longrightarrow> \<forall>x\<in>set xs. \<forall>e'. c x = Inl e' \<longrightarrow> e' = e \<Longrightarrow>
   filterE c xs = Inl e"
proof (induction xs)
  case Nil
  then show ?case by simp
next
  case (Cons x xs)
  show ?case
  proof (cases "c x")
    case (Inl e')
    then show ?thesis using Cons.prems(2) by simp
  next
    case (Inr b)
    then have "\<exists>y\<in>set xs. c y = Inl e" using Cons.prems(1) by auto
    then have "filterE c xs = Inl e" using Cons.IH Cons.prems(2) by simp
    then show ?thesis using Inr by simp
  qed
qed

lemma filterE_Inr_iff:
  "(\<exists>ys. filterE c xs = Inr ys) \<longleftrightarrow> (\<forall>x\<in>set xs. \<exists>b. c x = Inr b)"
proof (induction xs)
  case Nil
  then show ?case by simp
next
  case (Cons x xs)
  then show ?case
    by (cases "c x"; cases "filterE c xs") auto
qed

lemma fold_snoc_map: "fold (\<lambda>x acc. acc @ [f x]) xs ys = ys @ map f xs"
  by (induction xs arbitrary: ys) auto

lemma initialise_participants_map: "initialise_participants build rows = map build rows"
  by (simp add: initialise_participants_def fold_snoc_map)

lemma LpVariable_dicts_apply:
  "LpVariable_dicts xs lo up c k =
     (if k \<in> set xs then Some (LpVariable_init k lo up c) else None)"
  unfolding LpVariable_dicts_def by (induction xs) auto

lemma possible_matches_init [simp]:
  "possible_matches (MatchTracker_init ps) = possible_matches_of (length ps)"
  by (simp add: MatchTracker_init_def Let_def)

lemma persons_init [simp]: "persons (MatchTracker_init ps) = ps"
  by (simp add: MatchTracker_init_def Let_def)

lemma variables_init:
  "variables (MatchTracker_init ps) k =
     (if k \<in> set (possible_matches_of (length ps))
      then Some (LpVariable_init k (Some 0) (Some 1) LpInteger) else None)"
  by (simp add: MatchTracker_init_def Let_def LpVariable_dicts_apply)

lemma possible_match_cases:
  assumes "k \<in> set (possible_matches_of n)"
  obtains i j where "k = [i, j]" and "i \<le> j" and "j < n"
  using assms by (auto simp: set_possible_matches_of)

lemma people_of_possible_match:
  "k \<in> set (possible_matches_of (length ps)) \<Longrightarrow>
   people_of ps k = Inr (ps ! (k ! 0), ps ! (k ! 1))"
  by (erule possible_match_cases) (simp add: people_of_def getitem_def)

lemma get_variables_to_people_init:
  "get_variables_to_people (MatchTracker_init ps) =
     Inr (map (\<lambda>k. (LpVariable_init k (Some 0) (Some 1) LpInteger, ps ! (k ! 0), ps ! (k ! 1)))
            (possible_matches_of (length ps)))"
  unfolding get_variables_to_people_def possible_matches_init persons_init
  by (rule mapE_Inr) (simp add: dict_get_def variables_init people_of_possible_match)

lemma get_variables_for_person_init:
  "get_variables_for_person (MatchTracker_init ps) idx =
     Inr (map (\<lambda>k. LpVariable_init k (Some 0) (Some 1) LpInteger)
            (filter (\<lambda>k. idx \<in> set k) (possible_matches_of (length ps))))"
  unfolding get_variables_for_person_def possible_matches_init
  by (rule mapE_Inr) (simp add: dict_get_def variables_init)

lemma score_vars_of_map:
  "score_vars_of P vps = map (\<lambda>(v, p1, p2). var_times v (score_of P p1 p2)) vps"
proof -
  have "(\<lambda>(variable, person1, person2) score_vars.
           score_vars @ [var_times variable (score_of P person1 person2)])
      = (\<lambda>x acc. acc @ [(\<lambda>(v, p1, p2). var_times v (score_of P p1 p2)) x])"
    by (auto simp: fun_eq_iff)
  then show ?thesis
    by (simp add: score_vars_of_def fold_snoc_map)
qed

lemma add_coverage_init:
  "add_coverage (MatchTracker_init ps) idxs p =
     Inr (p\<lparr>constraints := constraints p @
            map (\<lambda>idx. expr_eq (lpSum (map var_expr
                   (map (\<lambda>k. LpVariable_init k (Some 0) (Some 1) LpInteger)
                      (filter (\<lambda>k. idx \<in> set k) (possible_matches_of (length ps)))))) 1) idxs\<rparr>)"
  by (induction idxs arbitrary: p)
    (simp_all add: get_variables_for_person_init add_constraint_def)

lemma add_eligibility_map:
  "add_eligibility P vps p =
     p\<lparr>constraints := constraints p @
        map (\<lambda>(v, p1, p2). expr_le (var_expr v) (is_pairable P p1 p2)) vps\<rparr>"
  unfolding add_eligibility_def
  by (induction vps arbitrary: p) (auto simp: add_constraint_def)

section \<open>The problem that construction builds\<close>

lemma fold_add_coef_None:
  "\<forall>e\<in>set es. expr_dummy e = None \<Longrightarrow> fold (\<lambda>e a. add_coef a (expr_dummy e)) es a = a"
  by (induction es arbitrary: a) (simp_all add: add_coef_def)

lemma lpSum_no_dummy:
  "\<forall>e\<in>set es. expr_dummy e = None \<Longrightarrow> expr_dummy (lpSum es) = None"
  by (simp add: lpSum_def fold_add_coef_None)

lemma var_times_eq:
  "var_times (LpVariable_init k lo up c) w
     = \<lparr>expr_terms = (if w \<noteq> 0 then [(k, w)] else []), expr_dummy = None, expr_constant = 0\<rparr>"
  by (simp add: var_times_def expr_times_def var_expr_def LpVariable_init_def)

lemma lpSum_var_times:
  "lpSum (map (\<lambda>k. var_times (LpVariable_init k lo up c) (w k)) ks)
     = \<lparr>expr_terms = map (\<lambda>k. (k, w k)) (filter (\<lambda>k. w k \<noteq> 0) ks), expr_dummy = None,
        expr_constant = 0\<rparr>"
proof -
  have d: "expr_dummy (lpSum (map (\<lambda>k. var_times (LpVariable_init k lo up c) (w k)) ks)) = None"
    by (rule lpSum_no_dummy) (simp add: var_times_eq)
  have t: "concat (map (\<lambda>k. expr_terms (var_times (LpVariable_init k lo up c) (w k))) ks)
             = map (\<lambda>k. (k, w k)) (filter (\<lambda>k. w k \<noteq> 0) ks)"
    by (induction ks) (simp_all add: var_times_eq)
  have z: "sum_list (map (\<lambda>k. expr_constant (var_times (LpVariable_init k lo up c) (w k))) ks) = 0"
    by (induction ks) (simp_all add: var_times_eq)
  show ?thesis
    using d t z by (simp add: lpSum_def comp_def)
qed

lemma writeLP_objective:
  "writeLP \<lparr>prob_name = nm, prob_sense = sn,
            objective = Some \<lparr>expr_terms = ts, expr_dummy = None, expr_constant = c\<rparr>,
            constraints = cs, status = st\<rparr>
     = \<lparr>prob_name = nm, prob_sense = sn,
        objective = Some \<lparr>expr_terms = ts, expr_dummy = (if ts = [] then Some 0 else None),
                          expr_constant = c\<rparr>,
        constraints = cs, status = st\<rparr>"
  by (simp add: writeLP_def isNumericalConstant_def add_dummy_def add_coef_def)

lemma initialse_problem_init:
  "initialse_problem P ps (MatchTracker_init ps) =
     Inr \<lparr>prob_name = ''Date_Pairing_Problem'', prob_sense = LpMaximize,
          objective =
            Some \<lparr>expr_terms =
                    map (\<lambda>k. (k, score_of P (ps ! (k ! 0)) (ps ! (k ! 1))))
                      (filter (\<lambda>k. score_of P (ps ! (k ! 0)) (ps ! (k ! 1)) \<noteq> 0)
                         (possible_matches_of (length ps))),
                  expr_dummy =
                    (if filter (\<lambda>k. score_of P (ps ! (k ! 0)) (ps ! (k ! 1)) \<noteq> 0)
                          (possible_matches_of (length ps)) = []
                     then Some 0 else None),
                  expr_constant = 0\<rparr>,
          constraints =
            map (\<lambda>idx. expr_eq (lpSum (map var_expr
                   (map (\<lambda>k. LpVariable_init k (Some 0) (Some 1) LpInteger)
                      (filter (\<lambda>k. idx \<in> set k) (possible_matches_of (length ps)))))) 1)
              [0..<length ps]
            @ map (\<lambda>k. expr_le (var_expr (LpVariable_init k (Some 0) (Some 1) LpInteger))
                         (is_pairable P (ps ! (k ! 0)) (ps ! (k ! 1))))
                (possible_matches_of (length ps)),
          status = LpStatusNotSolved\<rparr>"
  by (simp add: initialse_problem_def Let_def get_variables_to_people_init add_coverage_init
      add_eligibility_map score_vars_of_map set_objective_def LpProblem_init_def range_py_def
      comp_def lpSum_var_times writeLP_objective)

lemma MatchMaker_init_Inr:
  "MatchMaker_init P build rows =
     Inr \<lparr>mm_persons = map build rows,
          match_tracker = MatchTracker_init (map build rows),
          prob = \<lparr>prob_name = ''Date_Pairing_Problem'', prob_sense = LpMaximize,
          objective =
            Some \<lparr>expr_terms =
                    map (\<lambda>k. (k, score_of P (map build rows ! (k ! 0)) (map build rows ! (k ! 1))))
                      (filter (\<lambda>k. score_of P (map build rows ! (k ! 0))
                                            (map build rows ! (k ! 1)) \<noteq> 0)
                         (possible_matches_of (length rows))),
                  expr_dummy =
                    (if filter (\<lambda>k. score_of P (map build rows ! (k ! 0))
                                            (map build rows ! (k ! 1)) \<noteq> 0)
                          (possible_matches_of (length rows)) = []
                     then Some 0 else None),
                  expr_constant = 0\<rparr>,
          constraints =
            map (\<lambda>idx. expr_eq (lpSum (map var_expr
                   (map (\<lambda>k. LpVariable_init k (Some 0) (Some 1) LpInteger)
                      (filter (\<lambda>k. idx \<in> set k) (possible_matches_of (length rows)))))) 1)
              [0..<length rows]
            @ map (\<lambda>k. expr_le (var_expr (LpVariable_init k (Some 0) (Some 1) LpInteger))
                         (is_pairable P (map build rows ! (k ! 0)) (map build rows ! (k ! 1))))
                (possible_matches_of (length rows)),
          status = LpStatusNotSolved\<rparr>\<rparr>"
  using initialse_problem_init [of P "map build rows"]
  by (simp add: MatchMaker_init_def Let_def initialise_participants_map)

subsection \<open>Solutions of the built problem\<close>

lemma MatchMaker_init_fields:
  assumes "MatchMaker_init P build rows = Inr mm"
  shows "mm_persons mm = map build rows"
    and "match_tracker mm = MatchTracker_init (map build rows)"
    and "prob_sense (prob mm) = LpMaximize"
    and "objective (prob mm) =
            Some \<lparr>expr_terms =
                    map (\<lambda>k. (k, score_of P (map build rows ! (k ! 0)) (map build rows ! (k ! 1))))
                      (filter (\<lambda>k. score_of P (map build rows ! (k ! 0))
                                            (map build rows ! (k ! 1)) \<noteq> 0)
                         (possible_matches_of (length rows))),
                  expr_dummy =
                    (if filter (\<lambda>k. score_of P (map build rows ! (k ! 0))
                                            (map build rows ! (k ! 1)) \<noteq> 0)
                          (possible_matches_of (length rows)) = []
                     then Some 0 else None),
                  expr_constant = 0\<rparr>"
    and "constraints (prob mm) =
            map (\<lambda>idx. expr_eq (lpSum (map var_expr
                   (map (\<lambda>k. LpVariable_init k (Some 0) (Some 1) LpInteger)
                      (filter (\<lambda>k. idx \<in> set k) (possible_matches_of (length rows)))))) 1)
              [0..<length rows]
            @ map (\<lambda>k. expr_le (var_expr (LpVariable_init k (Some 0) (Some 1) LpInteger))
                         (is_pairable P (map build rows ! (k ! 0)) (map build rows ! (k ! 1))))
                (possible_matches_of (length rows))"
  using assms unfolding MatchMaker_init_Inr by auto

lemma expr_value_lpSum_vars:
  "expr_value val (lpSum (map var_expr (map (\<lambda>k. LpVariable_init k lo up c) ks)))
     = sum_list (map val ks)"
  by (induction ks) (simp_all add: expr_value_def lpSum_def var_expr_def LpVariable_init_def)

lemma expr_value_var_expr:
  "expr_value val (var_expr (LpVariable_init k lo up c)) = val k"
  by (simp add: expr_value_def var_expr_def LpVariable_init_def)

lemma zero_or_one:
  fixes x :: real
  assumes "0 \<le> x" and "x \<le> 1" and "real_of_int \<lfloor>x\<rfloor> = x"
  shows "x = 0 \<or> x = 1"
proof -
  have "0 \<le> \<lfloor>x\<rfloor>" using assms(1) by simp
  moreover have "\<lfloor>x\<rfloor> \<le> 1" using assms(2) by (simp add: floor_le_iff)
  ultimately have "\<lfloor>x\<rfloor> = 0 \<or> \<lfloor>x\<rfloor> = 1" by linarith
  then show ?thesis using assms(3) by auto
qed

lemma feasible_init_iff:
  assumes "MatchMaker_init P build rows = Inr mm"
  shows "feasible mm val \<longleftrightarrow>
     (\<forall>k\<in>set (possible_matches_of (length rows)). val k = 0 \<or> val k = 1)
   \<and> (\<forall>idx<length rows.
         sum_list (map val (filter (\<lambda>k. idx \<in> set k) (possible_matches_of (length rows)))) = 1)
   \<and> (\<forall>k\<in>set (possible_matches_of (length rows)).
         val k \<le> is_pairable P (map build rows ! (k ! 0)) (map build rows ! (k ! 1)))"
proof -
  have ok: "var_ok (LpVariable_init k (Some 0) (Some 1) LpInteger) x \<longleftrightarrow> x = 0 \<or> x = 1"
    for k x
    by (auto simp: var_ok_def LpVariable_init_def dest: zero_or_one)
  have cov: "constraint_holds val (expr_eq (lpSum (map var_expr
                   (map (\<lambda>k. LpVariable_init k (Some 0) (Some 1) LpInteger) ks))) 1)
             \<longleftrightarrow> sum_list (map val ks) = 1" for ks
    unfolding constraint_holds_def expr_eq_def by (simp add: expr_value_lpSum_vars del: map_map)
  have elig: "constraint_holds val
                (expr_le (var_expr (LpVariable_init k (Some 0) (Some 1) LpInteger)) c)
             \<longleftrightarrow> val k \<le> c" for k c
    unfolding constraint_holds_def expr_le_def by (simp add: expr_value_var_expr)
  have vars: "list_all (\<lambda>k. case variables (match_tracker mm) k of
                       None \<Rightarrow> False
                     | Some v \<Rightarrow> var_ok v (val k))
        (possible_matches (match_tracker mm))
      \<longleftrightarrow> (\<forall>k\<in>set (possible_matches_of (length rows)). val k = 0 \<or> val k = 1)"
    unfolding MatchMaker_init_fields [OF assms]
    by (simp add: list_all_iff variables_init ok)
  have cons: "list_all (constraint_holds val) (constraints (prob mm)) \<longleftrightarrow>
     (\<forall>idx<length rows.
         sum_list (map val (filter (\<lambda>k. idx \<in> set k) (possible_matches_of (length rows)))) = 1)
   \<and> (\<forall>k\<in>set (possible_matches_of (length rows)).
         val k \<le> is_pairable P (map build rows ! (k ! 0)) (map build rows ! (k ! 1)))"
    unfolding MatchMaker_init_fields [OF assms] list_all_append
    by (auto simp add: list_all_iff cov elig simp del: map_map One_nat_def)
  show ?thesis
    unfolding feasible_def vars cons by simp
qed

lemma sum_list_zero_one:
  fixes f :: "'a \<Rightarrow> real"
  shows "\<forall>x\<in>set xs. f x = 0 \<or> f x = 1 \<Longrightarrow>
         sum_list (map f xs) = real (length (filter (\<lambda>x. f x > 0) xs))"
  by (induction xs) auto

lemma variables_prob_solve:
  assumes "MatchMaker_init P build rows = Inr mm"
  shows "variables (match_tracker (prob_solve (st, asg) mm)) k =
     (if k \<in> set (possible_matches_of (length rows))
      then Some ((LpVariable_init k (Some 0) (Some 1) LpInteger)\<lparr>varValue := asg k\<rparr>)
      else None)"
  by (simp add: prob_solve_def write_values_def MatchMaker_init_fields [OF assms] variables_init
      LpVariable_init_def)

lemma tracker_prob_solve [simp]:
  "possible_matches (match_tracker (prob_solve outcome mm)) = possible_matches (match_tracker mm)"
  "persons (match_tracker (prob_solve outcome mm)) = persons (match_tracker mm)"
  "mm_persons (prob_solve outcome mm) = mm_persons mm"
  "status (prob (prob_solve outcome mm)) = fst outcome"
  "objective (prob (prob_solve outcome mm)) = objective (prob mm)"
  "constraints (prob (prob_solve outcome mm)) = constraints (prob mm)"
  by (simp_all add: prob_solve_def)

lemma get_true_possible_matches_Inr:
  assumes "\<And>k. k \<in> set (possible_matches mt) \<Longrightarrow> \<exists>v. variables mt k = Some v \<and> varValue v = Some (val k)"
  shows "get_true_possible_matches mt = Inr (filter (\<lambda>k. val k > 0) (possible_matches mt))"
  unfolding get_true_possible_matches_def
proof (rule filterE_Inr)
  fix k assume "k \<in> set (possible_matches mt)"
  from assms [OF this] show "is_true_match mt k = Inr (0 < val k)"
    by (auto simp: is_true_match_def dict_get_def)
qed

lemma get_true_possible_matches_solved:
  assumes "MatchMaker_init P build rows = Inr mm"
  shows "get_true_possible_matches (match_tracker (prob_solve (st, assigned val) mm))
       = Inr (filter (\<lambda>k. val k > 0) (possible_matches_of (length rows)))"
proof -
  have "get_true_possible_matches (match_tracker (prob_solve (st, assigned val) mm))
      = Inr (filter (\<lambda>k. val k > 0) (possible_matches (match_tracker (prob_solve (st, assigned val) mm))))"
    by (rule get_true_possible_matches_Inr)
      (simp add: variables_prob_solve [OF assms] MatchMaker_init_fields [OF assms] assigned_def)
  then show ?thesis
    by (simp add: MatchMaker_init_fields [OF assms])
qed

subsection \<open>Counting selected pairs, and the example roster\<close>

lemma count_list_distinct: "distinct xs \<Longrightarrow> x \<in> set xs \<Longrightarrow> count_list xs x = 1"
  by (induction xs) auto

lemma self_pair_in_possible_matches: "idx < n \<Longrightarrow> [idx, idx] \<in> set (possible_matches_of n)"
  by (simp add: set_possible_matches_of)

lemma exactly_one_selected:
  fixes val :: "pmatch \<Rightarrow> real"
  assumes "\<forall>k\<in>set ks. val k = 0 \<or> val k = 1"
    and "sum_list (map val (filter q ks)) = 1"
  shows "length (filter q (filter (\<lambda>k. val k > 0) ks)) = 1"
proof -
  have "\<forall>k\<in>set (filter q ks). val k = 0 \<or> val k = 1"
    using assms(1) by simp
  then have "sum_list (map val (filter q ks)) = real (length (filter (\<lambda>k. val k > 0) (filter q ks)))"
    by (rule sum_list_zero_one)
  then have "length (filter (\<lambda>k. val k > 0) (filter q ks)) = 1"
    using assms(2) by simp
  moreover have "filter (\<lambda>k. val k > 0) (filter q ks) = filter q (filter (\<lambda>k. val k > 0) ks)"
    by (simp add: conj_commute)
  ultimately show ?thesis by simp
qed

lemma example_possible_matches:
  "possible_matches_of (length example_rows) = [[0, 1], [0, 2], [1, 2], [0, 0], [1, 1], [2, 2]]"
  by code_simp

lemma example_feasible:
  assumes "MatchMaker_init example_person id example_rows = Inr mm"
  shows "feasible mm example_val"
  unfolding feasible_init_iff [OF assms] example_possible_matches
  by (simp add: example_rows_def example_val_def example_person_def All_less_Suc)

subsection \<open>The objective as a sum over the candidate pairs\<close>



lemma sum_list_filter_nonzero:
  fixes g :: "'a \<Rightarrow> real"
  assumes "\<And>k. w k = 0 \<Longrightarrow> g k = 0"
  shows "sum_list (map g (filter (\<lambda>k. w k \<noteq> (0::real)) ks)) = sum_list (map g ks)"
  by (induction ks) (simp_all add: assms)

subsection \<open>Extraction on the variables of a built tracker\<close>

lemma is_true_match_solved:
  assumes "MatchMaker_init P build rows = Inr mm"
    and "k \<in> set (possible_matches_of (length rows))"
  shows "is_true_match (match_tracker (prob_solve (st, asg) mm)) k
       = (case asg k of None \<Rightarrow> Inl TypeError | Some x \<Rightarrow> Inr (x > 0))"
  by (simp add: is_true_match_def dict_get_def variables_prob_solve [OF assms(1)] assms(2)
      LpVariable_init_def)

lemma is_true_match_fresh:
  assumes "k \<in> set (possible_matches_of (length ps))"
  shows "is_true_match (MatchTracker_init ps) k = Inl TypeError"
  by (simp add: is_true_match_def dict_get_def variables_init assms LpVariable_init_def)

lemma possible_matches_of_nonempty: "0 < n \<Longrightarrow> possible_matches_of n \<noteq> []"
  using self_pair_in_possible_matches [of 0 n] by auto

section \<open>Properties of the report\<close>

lemma map_of_dict_append:
  "map_of (dict_append d k v)
     = (map_of d)(k \<mapsto> (case map_of d k of None \<Rightarrow> [v] | Some vs \<Rightarrow> vs @ [v]))"
  by (induction d k v rule: dict_append.induct) (auto simp: fun_eq_iff)

lemma keys_dict_append:
  "set (map fst (dict_append d k v)) = insert k (set (map fst d))"
  by (induction d k v rule: dict_append.induct) auto

lemma distinct_dict_append:
  "distinct (map fst d) \<Longrightarrow> distinct (map fst (dict_append d k v))"
proof (induction d k v rule: dict_append.induct)
  case (1 k v)
  then show ?case by simp
next
  case (2 k' vs d k v)
  then show ?case
    using keys_dict_append [of d k v] by auto
qed

lemma size_dict_append:
  "sum_list (map (\<lambda>kv. length (snd kv)) (dict_append d k v))
     = Suc (sum_list (map (\<lambda>kv. length (snd kv)) d))"
  by (induction d k v rule: dict_append.induct) auto

lemma sum_dict_incr:
  "sum_list (map snd (dict_incr d k)) = sum_list (map snd d) + 1"
  by (induction d k rule: dict_incr.induct) auto

lemma nonempty_dict_append:
  "\<forall>kv\<in>set d. snd kv \<noteq> [] \<Longrightarrow> \<forall>kv\<in>set (dict_append d k v). snd kv \<noteq> []"
  by (induction d k v rule: dict_append.induct) auto

text \<open>The first loop of \<open>log_matches\<close> on a list of candidate pairs.\<close>

lemma log_matches_loop_Inr:
  assumes "set sel \<subseteq> set (possible_matches_of (length ps))"
  shows "\<exists>dd um. log_matches_loop P ps sel (d0, u0) = Inr (dd, um)
     \<and> um = u0 @ map (\<lambda>k. k ! 0) (filter (\<lambda>k. k ! 0 = k ! 1) sel)
     \<and> (distinct (map fst d0) \<longrightarrow> distinct (map fst dd))
     \<and> sum_list (map (\<lambda>kv. length (snd kv)) dd)
         = sum_list (map (\<lambda>kv. length (snd kv)) d0) + length (filter (\<lambda>k. k ! 0 \<noteq> k ! 1) sel)
     \<and> (\<forall>d. map_of dd d =
           (let xs = filter (\<lambda>k. k ! 0 \<noteq> k ! 1
                        \<and> get_day_or_either (day_choice P (ps ! (k ! 0)))
                                             (day_choice P (ps ! (k ! 1))) = d) sel
            in case map_of d0 d of
                 None \<Rightarrow> if xs = [] then None else Some xs
               | Some ys \<Rightarrow> Some (ys @ xs)))"
  using assms
proof (induction sel arbitrary: d0 u0)
  case Nil
  then show ?case by (auto split: option.splits)
next
  case (Cons k sel)
  from Cons.prems have k: "k \<in> set (possible_matches_of (length ps))"
    and sel: "set sel \<subseteq> set (possible_matches_of (length ps))"
    by auto
  from k obtain i j where ij: "k = [i, j]" and le: "i \<le> j" and lt: "j < length ps"
    by (rule possible_match_cases)
  show ?case
  proof (cases "i = j")
    case True
    have step: "log_matches_loop P ps (k # sel) (d0, u0)
                  = log_matches_loop P ps sel (d0, u0 @ [i])"
      using True ij by simp
    have flt: "filter (\<lambda>k. k ! 0 = k ! 1) (k # sel) = k # filter (\<lambda>k. k ! 0 = k ! 1) sel"
      "filter (\<lambda>k. k ! 0 \<noteq> k ! 1) (k # sel) = filter (\<lambda>k. k ! 0 \<noteq> k ! 1) sel"
      "\<And>d. filter (\<lambda>k. k ! 0 \<noteq> k ! 1
                        \<and> get_day_or_either (day_choice P (ps ! (k ! 0)))
                                             (day_choice P (ps ! (k ! 1))) = d) (k # sel)
           = filter (\<lambda>k. k ! 0 \<noteq> k ! 1
                        \<and> get_day_or_either (day_choice P (ps ! (k ! 0)))
                                             (day_choice P (ps ! (k ! 1))) = d) sel"
      using True ij by simp_all
    have hd: "k ! 0 = i"
      using ij by simp
    from Cons.IH [OF sel, of d0 "u0 @ [i]"]
    show ?thesis
      unfolding step flt by (simp add: hd)
  next
    case False
    let ?key = "get_day_or_either (day_choice P (ps ! i)) (day_choice P (ps ! j))"
    let ?d1 = "dict_append d0 ?key [i, j]"
    have step: "log_matches_loop P ps (k # sel) (d0, u0) = log_matches_loop P ps sel (?d1, u0)"
      using False ij le lt by (simp add: getitem_def)
    from Cons.IH [OF sel, of ?d1 u0]
    obtain dd um where r: "log_matches_loop P ps sel (?d1, u0) = Inr (dd, um)"
      and um: "um = u0 @ map (\<lambda>k. k ! 0) (filter (\<lambda>k. k ! 0 = k ! 1) sel)"
      and di: "distinct (map fst ?d1) \<longrightarrow> distinct (map fst dd)"
      and sz: "sum_list (map (\<lambda>kv. length (snd kv)) dd)
         = sum_list (map (\<lambda>kv. length (snd kv)) ?d1) + length (filter (\<lambda>k. k ! 0 \<noteq> k ! 1) sel)"
      and mpd: "\<forall>d. map_of dd d =
           (let xs = filter (\<lambda>k. k ! 0 \<noteq> k ! 1
                        \<and> get_day_or_either (day_choice P (ps ! (k ! 0)))
                                             (day_choice P (ps ! (k ! 1))) = d) sel
            in case map_of ?d1 d of
                 None \<Rightarrow> if xs = [] then None else Some xs
               | Some ys \<Rightarrow> Some (ys @ xs))"
      by blast
    have 1: "um = u0 @ map (\<lambda>k. k ! 0) (filter (\<lambda>k. k ! 0 = k ! 1) (k # sel))"
      using um False ij by simp
    have 2: "distinct (map fst d0) \<longrightarrow> distinct (map fst dd)"
    proof
      assume "distinct (map fst d0)"
      then have "distinct (map fst ?d1)"
        by (rule distinct_dict_append)
      with di show "distinct (map fst dd)"
        by simp
    qed
    have 3: "sum_list (map (\<lambda>kv. length (snd kv)) dd)
         = sum_list (map (\<lambda>kv. length (snd kv)) d0)
           + length (filter (\<lambda>k. k ! 0 \<noteq> k ! 1) (k # sel))"
      using sz False ij by (simp add: size_dict_append)
    have 4: "\<forall>d. map_of dd d =
           (let xs = filter (\<lambda>k. k ! 0 \<noteq> k ! 1
                        \<and> get_day_or_either (day_choice P (ps ! (k ! 0)))
                                             (day_choice P (ps ! (k ! 1))) = d) (k # sel)
            in case map_of d0 d of
                 None \<Rightarrow> if xs = [] then None else Some xs
               | Some ys \<Rightarrow> Some (ys @ xs))"
    proof
      fix d
      show "map_of dd d =
           (let xs = filter (\<lambda>k. k ! 0 \<noteq> k ! 1
                        \<and> get_day_or_either (day_choice P (ps ! (k ! 0)))
                                             (day_choice P (ps ! (k ! 1))) = d) (k # sel)
            in case map_of d0 d of
                 None \<Rightarrow> if xs = [] then None else Some xs
               | Some ys \<Rightarrow> Some (ys @ xs))"
      proof (cases "?key = d")
        case True
        then show ?thesis
          using mpd [rule_format, of d] False ij
          by (cases "map_of d0 d") (simp_all add: Let_def map_of_dict_append)
      next
        case neq: False
        then show ?thesis
          using mpd [rule_format, of d] False ij
          by (cases "map_of d0 d") (simp_all add: Let_def map_of_dict_append)
      qed
    qed
    from r 1 2 3 4 show ?thesis
      unfolding step by (intro exI [of _ dd] exI [of _ um] conjI) assumption+
  qed
qed

subsection \<open>The run on a complete assignment\<close>

lemma terms_value_assigned:
  "\<forall>k\<in>fst ` set ts. vals k = Some (val k) \<Longrightarrow>
   terms_value vals ts s = Some (s + sum_list (map (\<lambda>(k, c). c * val k) ts))"
  by (induction ts arbitrary: s) (auto simp: algebra_simps)

lemma var_values_solved:
  assumes "MatchMaker_init P build rows = Inr mm"
  shows "var_values (match_tracker (prob_solve (st, asg) mm)) k
       = (if k \<in> set (possible_matches_of (length rows)) then asg k else None)"
  by (simp add: var_values_def variables_prob_solve [OF assms])

lemma possible_matches_of_0 [simp]: "possible_matches_of 0 = []"
  by (simp add: possible_matches_of_eq)

lemma scored_pair_iff:
  "(\<exists>i j. [i, j] \<in> set (possible_matches_of n) \<and> w [i, j] \<noteq> (0::real))
     \<longleftrightarrow> filter (\<lambda>k. w k \<noteq> 0) (possible_matches_of n) \<noteq> []"
proof
  assume "\<exists>i j. [i, j] \<in> set (possible_matches_of n) \<and> w [i, j] \<noteq> 0"
  then obtain i j where "[i, j] \<in> set (filter (\<lambda>k. w k \<noteq> 0) (possible_matches_of n))"
    by auto
  then show "filter (\<lambda>k. w k \<noteq> 0) (possible_matches_of n) \<noteq> []"
    by (cases "filter (\<lambda>k. w k \<noteq> 0) (possible_matches_of n)") simp_all
next
  assume "filter (\<lambda>k. w k \<noteq> 0) (possible_matches_of n) \<noteq> []"
  then obtain k where k: "k \<in> set (possible_matches_of n)" and w: "w k \<noteq> 0"
    by (auto simp: filter_empty_conv)
  from k obtain i j where "k = [i, j]"
    by (rule possible_match_cases)
  with k w show "\<exists>i j. [i, j] \<in> set (possible_matches_of n) \<and> w [i, j] \<noteq> 0"
    by blast
qed

text \<open>
  The mean score: a number when the objective holds a term, since every variable has a
  value; TypeError when it holds none, since \<open>__dummy\<close> has no value.
\<close>

lemma mean_score_solved:
  assumes "MatchMaker_init P build rows = Inr mm"
  shows "mean_score (prob_solve (st, assigned val) mm)
         = (if filter (\<lambda>k. score_of P (map build rows ! (k ! 0)) (map build rows ! (k ! 1)) \<noteq> 0)
                 (possible_matches_of (length rows)) = []
            then Inl TypeError
            else Inr (2 * sum_list (map (\<lambda>k. score_of P (map build rows ! (k ! 0))
                                                 (map build rows ! (k ! 1)) * val k)
                                      (possible_matches_of (length rows)))
                      / real (length rows)))"
proof -
  note f = MatchMaker_init_fields [OF assms]
  let ?pms = "possible_matches_of (length rows)"
  let ?w = "\<lambda>k. score_of P (map build rows ! (k ! 0)) (map build rows ! (k ! 1))"
  let ?nz = "filter (\<lambda>k. ?w k \<noteq> 0) ?pms"
  let ?obj = "\<lparr>expr_terms = map (\<lambda>k. (k, ?w k)) ?nz,
               expr_dummy = (if ?nz = [] then Some 0 else None), expr_constant = 0\<rparr>"
  have obj: "objective (prob mm) = Some ?obj"
    by (rule f(4))
  show ?thesis
  proof (cases "?nz = []")
    case True
    then show ?thesis
      unfolding mean_score_def tracker_prob_solve obj by (simp add: value_py_def)
  next
    case False
    let ?obj' = "\<lparr>expr_terms = map (\<lambda>k. (k, ?w k)) ?nz, expr_dummy = None, expr_constant = 0\<rparr>"
    have obj': "objective (prob mm) = Some ?obj'"
      unfolding obj using False by simp
    have "terms_value (var_values (match_tracker (prob_solve (st, assigned val) mm)))
          (expr_terms ?obj') (expr_constant ?obj')
        = Some (expr_constant ?obj' + sum_list (map (\<lambda>(k, c). c * val k) (expr_terms ?obj')))"
      by (rule terms_value_assigned) (auto simp: var_values_solved [OF assms] assigned_def)
    also have "expr_constant ?obj' + sum_list (map (\<lambda>(k, c). c * val k) (expr_terms ?obj'))
                 = sum_list (map (\<lambda>k. ?w k * val k) ?nz)"
      by (simp add: comp_def)
    also have "\<dots> = sum_list (map (\<lambda>k. ?w k * val k) ?pms)"
      by (rule sum_list_filter_nonzero) simp
    finally have v: "value_py (var_values (match_tracker (prob_solve (st, assigned val) mm))) ?obj'
        = Some (sum_list (map (\<lambda>k. ?w k * val k) ?pms))"
      by (simp add: value_py_def)
    from False have "?pms \<noteq> []"
      by auto
    then have ne: "length (mm_persons mm) \<noteq> 0"
      by (auto simp: f)
    have "mean_score (prob_solve (st, assigned val) mm)
            = Inr (2 * sum_list (map (\<lambda>k. ?w k * val k) ?pms) / real (length (mm_persons mm)))"
      using ne v by (simp add: mean_score_def obj')
    then show ?thesis
      using False by (simp add: f)
  qed
qed

lemma mean_score_no_score:
  assumes "MatchMaker_init P build rows = Inr mm"
    and "filter (\<lambda>k. score_of P (map build rows ! (k ! 0)) (map build rows ! (k ! 1)) \<noteq> 0)
           (possible_matches_of (length rows)) = []"
  shows "mean_score (prob_solve (st, asg) mm) = Inl TypeError"
  unfolding mean_score_def tracker_prob_solve MatchMaker_init_fields(4) [OF assms(1)]
  using assms(2) by (simp add: value_py_def)

lemma mean_score_cases:
  assumes "MatchMaker_init P build rows = Inr mm" and "rows \<noteq> []"
  shows "mean_score (prob_solve (st, asg) mm) = Inl TypeError
       \<or> (\<exists>m. mean_score (prob_solve (st, asg) mm) = Inr m)"
  unfolding mean_score_def tracker_prob_solve MatchMaker_init_fields(4) [OF assms(1)]
  using assms(2) by (simp add: MatchMaker_init_fields [OF assms(1)] split: option.splits)

lemma get_true_possible_matches_unassigned:
  assumes "MatchMaker_init P build rows = Inr mm"
    and "\<exists>k\<in>set (possible_matches_of (length rows)). asg k = None"
  shows "get_true_possible_matches (match_tracker (prob_solve (st, asg) mm)) = Inl TypeError"
  unfolding get_true_possible_matches_def tracker_prob_solve
    MatchMaker_init_fields(2) [OF assms(1)] possible_matches_init length_map
  using assms(2)
  by (intro filterE_Inl) (auto simp: is_true_match_solved [OF assms(1)] split: option.splits)

lemma get_matches_solved:
  assumes "MatchMaker_init P build rows = Inr mm"
  shows "get_matches (match_tracker (prob_solve (st, assigned val) mm))
       = Inr (map (\<lambda>k. (map build rows ! (k ! 0), map build rows ! (k ! 1)))
                (filter (\<lambda>k. val k > 0) (possible_matches_of (length rows))))"
proof -
  note f = MatchMaker_init_fields [OF assms]
  let ?sel = "filter (\<lambda>k. val k > 0) (possible_matches_of (length rows))"
  have "mapE (people_of (persons (match_tracker (prob_solve (st, assigned val) mm)))) ?sel
               = Inr (map (\<lambda>k. (map build rows ! (k ! 0), map build rows ! (k ! 1))) ?sel)"
    by (rule mapE_Inr)
      (simp add: f people_of_possible_match [of _ "map build rows", simplified])
  then show ?thesis
    unfolding get_matches_def get_true_possible_matches_solved [OF assms] bindE_Inr .
qed

lemma fold_solve_step:
  "fold (solve_step P) ms (sc, n)
     = (sc @ map (\<lambda>(p1, p2). matrix_similarity P p1 p2) ms,
        n + 2 * int (length (filter (\<lambda>(p1, p2). p1 \<noteq> p2) ms)))"
  by (induction ms arbitrary: sc n) (auto simp: solve_step_def)

lemma fold_log_stats_step:
  "sum_list (map snd (fold (log_stats_step P) ms d))
     = sum_list (map snd d) + int (length (filter (\<lambda>(p1, p2). p1 \<noteq> p2) ms))"
  by (induction ms arbitrary: d) (auto simp: log_stats_step_def sum_dict_incr Let_def)

text \<open>\<open>log_matches\<close> after the solver gave every variable a value.\<close>

lemma log_matches_solved:
  fixes val :: "pmatch \<Rightarrow> real"
  assumes mm: "MatchMaker_init P build rows = Inr mm"
  defines "sel \<equiv> filter (\<lambda>k. val k > 0) (possible_matches_of (length rows))"
  defines "ms \<equiv> map (\<lambda>k. (map build rows ! (k ! 0), map build rows ! (k ! 1))) sel"
  shows "\<exists>dd um nm. log_matches P (prob_solve (st, assigned val) mm) = Inr (dd, um, nm)
     \<and> nm = fold (log_stats_step P) ms []
     \<and> um = map (\<lambda>k. k ! 0) (filter (\<lambda>k. k ! 0 = k ! 1) sel)
     \<and> distinct (map fst dd)
     \<and> sum_list (map (\<lambda>kv. length (snd kv)) dd) = length (filter (\<lambda>k. k ! 0 \<noteq> k ! 1) sel)
     \<and> (\<forall>d. map_of dd d =
           (let xs = filter (\<lambda>k. k ! 0 \<noteq> k ! 1
                        \<and> get_day_or_either (day_choice P (map build rows ! (k ! 0)))
                                             (day_choice P (map build rows ! (k ! 1))) = d) sel
            in if xs = [] then None else Some xs))"
proof -
  note f = MatchMaker_init_fields [OF mm]
  let ?mm = "prob_solve (st, assigned val) mm"
  have gm: "get_matches (match_tracker ?mm) = Inr ms"
    unfolding ms_def sel_def by (rule get_matches_solved [OF mm])
  have gt: "get_true_possible_matches (match_tracker ?mm) = Inr sel"
    unfolding sel_def by (rule get_true_possible_matches_solved [OF mm])
  have sub: "set sel \<subseteq> set (possible_matches_of (length (map build rows)))"
    unfolding sel_def by auto
  from log_matches_loop_Inr [OF sub, of P "[]" "[]"]
  obtain dd um where loop: "log_matches_loop P (map build rows) sel ([], []) = Inr (dd, um)"
    and um: "um = map (\<lambda>k. k ! 0) (filter (\<lambda>k. k ! 0 = k ! 1) sel)"
    and di: "distinct (map fst dd)"
    and sz: "sum_list (map (\<lambda>kv. length (snd kv)) dd) = length (filter (\<lambda>k. k ! 0 \<noteq> k ! 1) sel)"
    and mpd: "\<forall>d. map_of dd d =
           (let xs = filter (\<lambda>k. k ! 0 \<noteq> k ! 1
                        \<and> get_day_or_either (day_choice P (map build rows ! (k ! 0)))
                                             (day_choice P (map build rows ! (k ! 1))) = d) sel
            in if xs = [] then None else Some xs)"
    by auto
  have lm: "log_matches P ?mm = Inr (dd, um, fold (log_stats_step P) ms [])"
    unfolding log_matches_def log_stats_def gt gm bindE_Inr tracker_prob_solve f loop
    by simp
  from lm um di sz mpd show ?thesis
    by (intro exI [of _ dd] exI [of _ um] exI [of _ "fold (log_stats_step P) ms []"] conjI refl)
qed

text \<open>
  \<open>solve\<close> after the solver gave every variable a value, on a roster with a candidate
  pair of a score other than \<open>0\<close>.
\<close>

lemma solve_solved:
  fixes val :: "pmatch \<Rightarrow> real"
  assumes mm: "MatchMaker_init P build rows = Inr mm"
    and nz: "filter (\<lambda>k. score_of P (map build rows ! (k ! 0)) (map build rows ! (k ! 1)) \<noteq> 0)
               (possible_matches_of (length rows)) \<noteq> []"
  defines "sel \<equiv> filter (\<lambda>k. val k > 0) (possible_matches_of (length rows))"
  defines "ms \<equiv> map (\<lambda>k. (map build rows ! (k ! 0), map build rows ! (k ! 1))) sel"
  shows "\<exists>r. solve P mm (st, assigned val) = Inr r
     \<and> log_matches P (prob_solve (st, assigned val) mm)
         = Inr (rep_day_dict r, rep_unmatched r, rep_num r)
     \<and> rep_status r = st
     \<and> rep_scores r = map (\<lambda>(p1, p2). matrix_similarity P p1 p2) ms
     \<and> rep_num_matches r = 2 * int (length (filter (\<lambda>(p1, p2). p1 \<noteq> p2) ms))
     \<and> rep_not_matched r = int (length rows) - rep_num_matches r
     \<and> rep_unmatched r = map (\<lambda>k. k ! 0) (filter (\<lambda>k. k ! 0 = k ! 1) sel)
     \<and> distinct (map fst (rep_day_dict r))
     \<and> sum_list (map (\<lambda>kv. length (snd kv)) (rep_day_dict r))
         = length (filter (\<lambda>k. k ! 0 \<noteq> k ! 1) sel)
     \<and> (\<forall>d. map_of (rep_day_dict r) d =
           (let xs = filter (\<lambda>k. k ! 0 \<noteq> k ! 1
                        \<and> get_day_or_either (day_choice P (map build rows ! (k ! 0)))
                                             (day_choice P (map build rows ! (k ! 1))) = d) sel
            in if xs = [] then None else Some xs))
     \<and> sum_list (map snd (rep_num r)) = int (length (filter (\<lambda>(p1, p2). p1 \<noteq> p2) ms))"
proof -
  note f = MatchMaker_init_fields [OF mm]
  let ?mm = "prob_solve (st, assigned val) mm"
  from mean_score_solved [OF mm, of st val] nz obtain mean where
    mean: "mean_score ?mm = Inr mean"
    by auto
  have gm: "get_matches (match_tracker ?mm) = Inr ms"
    unfolding ms_def sel_def by (rule get_matches_solved [OF mm])
  from log_matches_solved [OF mm, where st = st and val = val]
  obtain dd um where lm: "log_matches P ?mm = Inr (dd, um, fold (log_stats_step P) ms [])"
    and um: "um = map (\<lambda>k. k ! 0) (filter (\<lambda>k. k ! 0 = k ! 1) sel)"
    and di: "distinct (map fst dd)"
    and sz: "sum_list (map (\<lambda>kv. length (snd kv)) dd) = length (filter (\<lambda>k. k ! 0 \<noteq> k ! 1) sel)"
    and mpd: "\<forall>d. map_of dd d =
           (let xs = filter (\<lambda>k. k ! 0 \<noteq> k ! 1
                        \<and> get_day_or_either (day_choice P (map build rows ! (k ! 0)))
                                             (day_choice P (map build rows ! (k ! 1))) = d) sel
            in if xs = [] then None else Some xs)"
    unfolding sel_def ms_def by auto
  let ?r = "\<lparr>rep_status = st, rep_mean_score = mean,
             rep_scores = map (\<lambda>(p1, p2). matrix_similarity P p1 p2) ms,
             rep_day_dict = dd, rep_unmatched = um,
             rep_num = fold (log_stats_step P) ms [],
             rep_num_matches = 2 * int (length (filter (\<lambda>(p1, p2). p1 \<noteq> p2) ms)),
             rep_not_matched = int (length rows)
               - 2 * int (length (filter (\<lambda>(p1, p2). p1 \<noteq> p2) ms))\<rparr>"
  have "solve P mm (st, assigned val) = Inr ?r"
    unfolding solve_def Let_def mean gm lm bindE_Inr fold_solve_step
    by (simp add: f)
  moreover have "sum_list (map snd (rep_num ?r)) = int (length (filter (\<lambda>(p1, p2). p1 \<noteq> p2) ms))"
    by (simp add: fold_log_stats_step)
  ultimately show ?thesis
    using um di sz mpd lm by (intro exI [of _ ?r]) simp
qed

text \<open>The runs that raise TypeError.\<close>

lemma solve_no_score:
  assumes "MatchMaker_init P build rows = Inr mm"
    and "filter (\<lambda>k. score_of P (map build rows ! (k ! 0)) (map build rows ! (k ! 1)) \<noteq> 0)
           (possible_matches_of (length rows)) = []"
  shows "solve P mm (st, asg) = Inl TypeError"
  unfolding solve_def Let_def mean_score_no_score [OF assms] by simp

lemma solve_unassigned:
  assumes mm: "MatchMaker_init P build rows = Inr mm"
    and un: "\<exists>k\<in>set (possible_matches_of (length rows)). asg k = None"
  shows "solve P mm (st, asg) = Inl TypeError"
proof -
  from un have "possible_matches_of (length rows) \<noteq> []"
    by auto
  then have ne: "rows \<noteq> []"
    by auto
  have gm: "get_matches (match_tracker (prob_solve (st, asg) mm)) = Inl TypeError"
    unfolding get_matches_def get_true_possible_matches_unassigned [OF mm un] by simp
  from mean_score_cases [OF mm ne, of st asg] show ?thesis
    unfolding solve_def Let_def gm by auto
qed

text \<open>A run that reports has a candidate pair of a score other than \<open>0\<close>.\<close>

lemma solve_scored:
  assumes mm: "MatchMaker_init P build rows = Inr mm"
    and r: "solve P mm (st, asg) = Inr r"
  shows "filter (\<lambda>k. score_of P (map build rows ! (k ! 0)) (map build rows ! (k ! 1)) \<noteq> 0)
           (possible_matches_of (length rows)) \<noteq> []"
proof
  assume "filter (\<lambda>k. score_of P (map build rows ! (k ! 0)) (map build rows ! (k ! 1)) \<noteq> 0)
           (possible_matches_of (length rows)) = []"
  from solve_no_score [OF mm this, of st asg] r show False
    by simp
qed

subsection \<open>Counting participants over the selected pairs\<close>

lemma example_init: "MatchMaker_init example_person id example_rows = Inr example_mm"
  by (simp add: example_mm_def MatchMaker_init_Inr)

lemma solo_init: "MatchMaker_init solo_person id solo_rows = Inr solo_mm"
  by (simp add: solo_mm_def MatchMaker_init_Inr)

lemma barred_init: "MatchMaker_init solo_person id barred_rows = Inr barred_mm"
  by (simp add: barred_mm_def MatchMaker_init_Inr)

lemma twin_init: "MatchMaker_init twin_person id twin_rows = Inr twin_mm"
  by (simp add: twin_mm_def MatchMaker_init_Inr)

text \<open>The problems of the rosters on which nobody is pairable have no solution.\<close>

lemma solo_infeasible: "\<not> feasible solo_mm val"
proof -
  have pm: "possible_matches_of (length solo_rows) = [[0, 0]]"
    by code_simp
  show ?thesis
    unfolding feasible_init_iff [OF solo_init] pm
    by (simp add: solo_rows_def solo_person_def)
qed

lemma barred_infeasible: "\<not> feasible barred_mm val"
proof -
  have pm: "possible_matches_of (length barred_rows) = [[0, 1], [0, 0], [1, 1]]"
    by code_simp
  show ?thesis
    unfolding feasible_init_iff [OF barred_init] pm
    by (simp add: barred_rows_def solo_person_def All_less_Suc)
qed




subsection \<open>The status and the day breakdown\<close>

lemma solve_status:
  "solve P mm (st', asg) = map_sum id (\<lambda>r. r\<lparr>rep_status := st'\<rparr>) (solve P mm (st, asg))"
proof -
  have mt: "match_tracker (prob_solve (st', asg) mm) = match_tracker (prob_solve (st, asg) mm)"
    by (simp add: prob_solve_def)
  have ms: "mean_score (prob_solve (st', asg) mm) = mean_score (prob_solve (st, asg) mm)"
    unfolding mean_score_def tracker_prob_solve mt ..
  have lm: "log_matches P (prob_solve (st', asg) mm) = log_matches P (prob_solve (st, asg) mm)"
    unfolding log_matches_def tracker_prob_solve mt ..
  show ?thesis
    unfolding solve_def Let_def ms lm mt tracker_prob_solve
    by (auto simp: bindE_def split: sum.splits prod.splits)
qed

lemma grouped_iff:
  assumes "\<forall>d. map_of dd d = (let xs = filter (Q d) sel in if xs = [] then None else Some xs)"
  shows "(\<exists>pairs. map_of dd d = Some pairs \<and> k \<in> set pairs) \<longleftrightarrow> k \<in> set sel \<and> Q d k"
proof
  assume "\<exists>pairs. map_of dd d = Some pairs \<and> k \<in> set pairs"
  then obtain pairs where p: "map_of dd d = Some pairs" and k: "k \<in> set pairs"
    by blast
  from p assms have "pairs = filter (Q d) sel"
    by (simp add: Let_def split: if_splits)
  with k show "k \<in> set sel \<and> Q d k"
    by simp
next
  assume "k \<in> set sel \<and> Q d k"
  then have k: "k \<in> set (filter (Q d) sel)"
    by simp
  then have "filter (Q d) sel \<noteq> []"
    by (cases "filter (Q d) sel") simp_all
  with assms have "map_of dd d = Some (filter (Q d) sel)"
    by (simp add: Let_def)
  with k show "\<exists>pairs. map_of dd d = Some pairs \<and> k \<in> set pairs"
    by blast
qed

subsection \<open>The best solution for two equal participants\<close>

text \<open>
  Among the assignments that satisfy the problem of the two equal participants none
  has a greater objective value than the one that matches them to each other.
\<close>

lemma twin_possible_matches: "possible_matches_of (length twin_rows) = [[0, 1], [0, 0], [1, 1]]"
  by code_simp

lemma twin_optimal:
  assumes "feasible twin_mm val"
  shows "expr_value val (the (objective (prob twin_mm)))
           \<le> expr_value twin_val (the (objective (prob twin_mm)))"
proof -
  note f = MatchMaker_init_fields [OF twin_init]
  have obj: "objective (prob twin_mm)
               = Some \<lparr>expr_terms = [([0, 1], - (1 / 10)), ([0, 0], - (1 / 10)),
                                     ([1, 1], - (1 / 10))],
                       expr_dummy = None, expr_constant = 0\<rparr>"
    by code_simp
  from assms have zo: "\<forall>k\<in>set [[0, 1], [0, 0], [1, 1]]. val k = 0 \<or> val k = 1"
    and cov: "\<forall>idx<length twin_rows.
         sum_list (map val (filter (\<lambda>k. idx \<in> set k) [[0, 1], [0, 0], [1, 1]])) = 1"
    unfolding feasible_init_iff [OF twin_init] twin_possible_matches by simp_all
  from cov [rule_format, of 0] have c0: "val [0, 1] + val [0, 0] = 1"
    by (simp add: twin_rows_def)
  from cov [rule_format, of 1] have c1: "val [0, 1] + val [1, 1] = 1"
    by (simp add: twin_rows_def)
  from zo have "0 \<le> val [1, 1]"
    by auto
  with c0 c1 show ?thesis
    unfolding obj by (simp add: expr_value_def twin_val_def)
qed

subsection \<open>Resolution of the day of a pair\<close>

lemma get_day_or_either_cases:
  "(day1 = day2 \<longrightarrow> get_day_or_either day1 day2 = day1)
   \<and> (day1 \<noteq> day2 \<and> day1 = ''Either'' \<longrightarrow> get_day_or_either day1 day2 = day2)
   \<and> (day1 \<noteq> day2 \<and> day2 = ''Either'' \<longrightarrow> get_day_or_either day1 day2 = day1)
   \<and> (day1 \<noteq> day2 \<and> day1 \<noteq> ''Either'' \<and> day2 \<noteq> ''Either''
        \<longrightarrow> get_day_or_either day1 day2 = day1)"
  unfolding get_day_or_either_def by auto

section \<open>Coverage\<close>

text \<open>
  Claim C1. Construction succeeds for every roster, and for every participant index
  \<open>idx\<close> the problem contains the constraint that the sum of the variables whose key
  contains \<open>idx\<close> equals \<open>1\<close>; each such variable has coefficient \<open>1\<close> and the self-pair
  of \<open>idx\<close> occurs once among them. Hence in every solved run every index is in exactly
  one of the selected candidate pairs.
\<close>

theorem coverage_constraints:
  "\<exists>mm. MatchMaker_init P build rows = Inr mm
     \<and> (\<forall>idx<length rows. \<exists>vs.
            get_variables_for_person (match_tracker mm) idx = Inr vs
          \<and> map var_key vs
              = filter (\<lambda>k. idx \<in> set k) (possible_matches (match_tracker mm))
          \<and> count_list (map var_key vs) [idx, idx] = 1
          \<and> expr_terms (lpSum (map var_expr vs)) = map (\<lambda>k. (k, 1)) (map var_key vs)
          \<and> expr_eq (lpSum (map var_expr vs)) 1 \<in> set (constraints (prob mm)))
     \<and> (\<forall>st val. feasible mm val \<longrightarrow>
           (\<exists>sel. get_true_possible_matches (match_tracker (prob_solve (st, assigned val) mm))
                     = Inr sel
                 \<and> (\<forall>idx<length rows. length (filter (\<lambda>k. idx \<in> set k) sel) = 1)))"
proof -
  obtain mm where mm: "MatchMaker_init P build rows = Inr mm"
    by (simp add: MatchMaker_init_Inr)
  note f = MatchMaker_init_fields [OF mm]
  let ?pms = "possible_matches_of (length rows)"
  let ?V = "\<lambda>k. LpVariable_init k (Some 0) (Some 1) LpInteger"
  have cov: "\<exists>vs. get_variables_for_person (match_tracker mm) idx = Inr vs
          \<and> map var_key vs = filter (\<lambda>k. idx \<in> set k) (possible_matches (match_tracker mm))
          \<and> count_list (map var_key vs) [idx, idx] = 1
          \<and> expr_terms (lpSum (map var_expr vs)) = map (\<lambda>k. (k, 1)) (map var_key vs)
          \<and> expr_eq (lpSum (map var_expr vs)) 1 \<in> set (constraints (prob mm))"
    if idx: "idx < length rows" for idx
  proof -
    let ?ks = "filter (\<lambda>k. idx \<in> set k) ?pms"
    have 1: "get_variables_for_person (match_tracker mm) idx = Inr (map ?V ?ks)"
      using get_variables_for_person_init [of "map build rows" idx] by (simp add: f)
    have 2: "map var_key (map ?V ?ks) = ?ks"
      by (simp add: LpVariable_init_def comp_def)
    have 3: "count_list ?ks [idx, idx] = 1"
      by (rule count_list_distinct)
        (simp_all add: distinct_possible_matches_of self_pair_in_possible_matches idx)
    have 4: "expr_terms (lpSum (map var_expr (map ?V ?ks))) = map (\<lambda>k. (k, 1)) ?ks"
      by (induction ?ks) (simp_all add: lpSum_def var_expr_def LpVariable_init_def comp_def)
    have 5: "expr_eq (lpSum (map var_expr (map ?V ?ks))) 1 \<in> set (constraints (prob mm))"
      unfolding f using idx by (simp del: map_map) 
    show ?thesis
      using 1 2 3 4 5 by (simp add: f del: map_map)
  qed
  have sel: "\<exists>sel. get_true_possible_matches (match_tracker (prob_solve (st, assigned val) mm))
                     = Inr sel
                 \<and> (\<forall>idx<length rows. length (filter (\<lambda>k. idx \<in> set k) sel) = 1)"
    if feas: "feasible mm val" for st val
  proof -
    from feas have zo: "\<forall>k\<in>set ?pms. val k = 0 \<or> val k = 1"
      and one: "\<forall>idx<length rows. sum_list (map val (filter (\<lambda>k. idx \<in> set k) ?pms)) = 1"
      unfolding feasible_init_iff [OF mm] by simp_all
    have "\<forall>idx<length rows.
            length (filter (\<lambda>k. idx \<in> set k) (filter (\<lambda>k. val k > 0) ?pms)) = 1"
      using exactly_one_selected [OF zo] one by blast
    then show ?thesis
      by (simp add: get_true_possible_matches_solved [OF mm])
  qed
  from mm cov sel show ?thesis by blast
qed

theorem coverage_constraints_witness:
  "\<exists>mm. MatchMaker_init example_person id example_rows = Inr mm
     \<and> feasible mm example_val
     \<and> get_true_possible_matches
          (match_tracker (prob_solve (LpStatusOptimal, assigned example_val) mm))
        = Inr [[0, 1], [2, 2]]
     \<and> (2::nat) < length example_rows
     \<and> length (filter (\<lambda>k. (2::nat) \<in> set k) [[0, 1], [2, 2]]) = 1"
proof -
  from coverage_constraints [of example_person id example_rows]
  obtain mm where mm: "MatchMaker_init example_person id example_rows = Inr mm"
    and sel: "\<forall>st val. feasible mm val \<longrightarrow>
           (\<exists>sel. get_true_possible_matches (match_tracker (prob_solve (st, assigned val) mm))
                     = Inr sel
                 \<and> (\<forall>idx<length example_rows. length (filter (\<lambda>k. idx \<in> set k) sel) = 1))"
    by blast
  have feas: "feasible mm example_val"
    by (rule example_feasible [OF mm])
  with sel obtain s where
    s: "get_true_possible_matches
          (match_tracker (prob_solve (LpStatusOptimal, assigned example_val) mm)) = Inr s"
    and one: "\<forall>idx<length example_rows. length (filter (\<lambda>k. idx \<in> set k) s) = 1"
    by blast
  have eq: "s = [[0, 1], [2, 2]]"
    using s unfolding get_true_possible_matches_solved [OF mm] example_possible_matches
    by (simp add: example_val_def)
  have lt: "(2::nat) < length example_rows"
    by (simp add: example_rows_def)
  with one have "length (filter (\<lambda>k. (2::nat) \<in> set k) s) = 1"
    by blast
  with mm feas s lt show ?thesis
    unfolding eq by blast
qed

section \<open>The candidate-pair key set\<close>

text \<open>
  Claim C2. For a roster of \<open>N\<close> participants the candidate pairs the tracker constructs,
  which are the keys of its variables, are exactly the pairs \<open>(i, j)\<close> with \<open>i < j < N\<close>
  and the self-pairs \<open>(i, i)\<close> with \<open>i < N\<close>. The list has no duplicates, so there are
  \<open>N (N + 1) / 2\<close> of them; no pair \<open>(i, j)\<close> with \<open>i > j\<close> is a key, and for \<open>i \<noteq> j\<close>
  never both \<open>(i, j)\<close> and \<open>(j, i)\<close>.
\<close>

theorem candidate_pair_keys:
  "set (possible_matches (MatchTracker_init ps))
     = {[i, j] | i j. i < j \<and> j < length ps} \<union> {[i, i] | i. i < length ps}
   \<and> dom (variables (MatchTracker_init ps)) = set (possible_matches (MatchTracker_init ps))
   \<and> distinct (possible_matches (MatchTracker_init ps))
   \<and> length (possible_matches (MatchTracker_init ps)) = length ps * (length ps + 1) div 2
   \<and> (\<forall>i j. j < i \<longrightarrow> [i, j] \<notin> set (possible_matches (MatchTracker_init ps)))
   \<and> (\<forall>i j. i \<noteq> j \<longrightarrow>
         \<not> ([i, j] \<in> set (possible_matches (MatchTracker_init ps))
            \<and> [j, i] \<in> set (possible_matches (MatchTracker_init ps))))"
proof -
  have "dom (variables (MatchTracker_init ps)) = set (possible_matches_of (length ps))"
    by (auto simp: variables_init dom_def)
  moreover have "\<forall>i j. j < i \<longrightarrow> [i, j] \<notin> set (possible_matches_of (length ps))"
    by (auto simp: set_possible_matches_of)
  moreover have "\<forall>i j. i \<noteq> j \<longrightarrow>
         \<not> ([i, j] \<in> set (possible_matches_of (length ps))
            \<and> [j, i] \<in> set (possible_matches_of (length ps)))"
    by (auto simp: set_possible_matches_of)
  ultimately show ?thesis
    by (simp add: set_possible_matches_of distinct_possible_matches_of
        length_possible_matches_of)
qed

theorem candidate_pair_keys_witness:
  "length (possible_matches (MatchTracker_init [''a'', ''b'', ''c''])) = 6
   \<and> [0, 2] \<in> set (possible_matches (MatchTracker_init [''a'', ''b'', ''c'']))
   \<and> (0::nat) < 2
   \<and> [2, 0] \<notin> set (possible_matches (MatchTracker_init [''a'', ''b'', ''c'']))"
  using candidate_pair_keys [of "[''a'', ''b'', ''c'']"] by simp

section \<open>Eligibility\<close>

text \<open>
  Claim C3. For every candidate pair \<open>(i, j)\<close> the problem contains the constraint
  \<open>variable(i, j) \<le> pairable(i, j)\<close>. Hence a solved run never selects a pair whose
  pairability is \<open>0\<close>, whatever the similarity scores are.
\<close>

theorem eligibility_constraints:
  "\<exists>mm. MatchMaker_init P build rows = Inr mm
     \<and> (\<forall>k\<in>set (possible_matches (match_tracker mm)). \<exists>i j v.
            k = [i, j] \<and> variables (match_tracker mm) k = Some v \<and> var_key v = k
          \<and> expr_terms (var_expr v) = [(k, 1)]
          \<and> expr_le (var_expr v) (is_pairable P (mm_persons mm ! i) (mm_persons mm ! j))
              \<in> set (constraints (prob mm)))
     \<and> (\<forall>st val. feasible mm val \<longrightarrow>
           (\<exists>sel. get_true_possible_matches (match_tracker (prob_solve (st, assigned val) mm))
                     = Inr sel
                 \<and> (\<forall>i j. [i, j] \<in> set (possible_matches (match_tracker mm))
                         \<and> is_pairable P (mm_persons mm ! i) (mm_persons mm ! j) = 0
                       \<longrightarrow> [i, j] \<notin> set sel)))"
proof -
  obtain mm where mm: "MatchMaker_init P build rows = Inr mm"
    by (simp add: MatchMaker_init_Inr)
  note f = MatchMaker_init_fields [OF mm]
  let ?pms = "possible_matches_of (length rows)"
  let ?V = "\<lambda>k. LpVariable_init k (Some 0) (Some 1) LpInteger"
  have elig: "\<exists>i j v. k = [i, j] \<and> variables (match_tracker mm) k = Some v \<and> var_key v = k
          \<and> expr_terms (var_expr v) = [(k, 1)]
          \<and> expr_le (var_expr v) (is_pairable P (mm_persons mm ! i) (mm_persons mm ! j))
              \<in> set (constraints (prob mm))"
    if k: "k \<in> set (possible_matches (match_tracker mm))" for k
  proof -
    from k have k': "k \<in> set ?pms" by (simp add: f)
    then obtain i j where ij: "k = [i, j]"
      by (rule possible_match_cases)
    have 1: "variables (match_tracker mm) k = Some (?V k)"
      using k' by (simp add: f variables_init)
    have 2: "var_key (?V k) = k" "expr_terms (var_expr (?V k)) = [(k, 1)]"
      by (simp_all add: LpVariable_init_def var_expr_def)
    have "expr_le (var_expr (?V k)) (is_pairable P (map build rows ! (k ! 0)) (map build rows ! (k ! 1)))
            \<in> set (constraints (prob mm))"
      unfolding f using k' by simp
    then have 3: "expr_le (var_expr (?V k)) (is_pairable P (mm_persons mm ! i) (mm_persons mm ! j))
            \<in> set (constraints (prob mm))"
      by (simp add: ij f)
    from ij 1 2 3 show ?thesis by blast
  qed
  have sel: "\<exists>sel. get_true_possible_matches (match_tracker (prob_solve (st, assigned val) mm))
                     = Inr sel
                 \<and> (\<forall>i j. [i, j] \<in> set (possible_matches (match_tracker mm))
                         \<and> is_pairable P (mm_persons mm ! i) (mm_persons mm ! j) = 0
                       \<longrightarrow> [i, j] \<notin> set sel)"
    if feas: "feasible mm val" for st val
  proof -
    from feas have le: "\<forall>k\<in>set ?pms.
         val k \<le> is_pairable P (map build rows ! (k ! 0)) (map build rows ! (k ! 1))"
      unfolding feasible_init_iff [OF mm] by simp
    have "[i, j] \<notin> set (filter (\<lambda>k. val k > 0) ?pms)"
      if "[i, j] \<in> set ?pms" and "is_pairable P (map build rows ! i) (map build rows ! j) = 0"
      for i j
      using le that by fastforce
    then show ?thesis
      by (simp add: get_true_possible_matches_solved [OF mm] f)
  qed
  from mm elig sel show ?thesis by blast
qed

theorem eligibility_constraints_witness:
  "\<exists>mm. MatchMaker_init example_person id example_rows = Inr mm
     \<and> feasible mm example_val
     \<and> [0, 2] \<in> set (possible_matches (match_tracker mm))
     \<and> is_pairable example_person (mm_persons mm ! 0) (mm_persons mm ! 2) = 0
     \<and> matrix_similarity example_person (mm_persons mm ! 0) (mm_persons mm ! 2) = 1
     \<and> (\<exists>sel. get_true_possible_matches
                 (match_tracker (prob_solve (LpStatusOptimal, assigned example_val) mm)) = Inr sel
              \<and> [0, 2] \<notin> set sel)"
proof -
  from eligibility_constraints [of example_person id example_rows]
  obtain mm where mm: "MatchMaker_init example_person id example_rows = Inr mm"
    and sel: "\<forall>st val. feasible mm val \<longrightarrow>
           (\<exists>sel. get_true_possible_matches (match_tracker (prob_solve (st, assigned val) mm))
                     = Inr sel
                 \<and> (\<forall>i j. [i, j] \<in> set (possible_matches (match_tracker mm))
                         \<and> is_pairable example_person (mm_persons mm ! i) (mm_persons mm ! j) = 0
                       \<longrightarrow> [i, j] \<notin> set sel))"
    by blast
  note f = MatchMaker_init_fields [OF mm]
  have feas: "feasible mm example_val"
    by (rule example_feasible [OF mm])
  have mem: "[0, 2] \<in> set (possible_matches (match_tracker mm))"
    unfolding f possible_matches_init length_map example_possible_matches by simp
  have np: "is_pairable example_person (mm_persons mm ! 0) (mm_persons mm ! 2) = 0"
    and sim: "matrix_similarity example_person (mm_persons mm ! 0) (mm_persons mm ! 2) = 1"
    by (simp_all add: f example_rows_def example_person_def)
  from sel feas mem np have "\<exists>sel. get_true_possible_matches
                 (match_tracker (prob_solve (LpStatusOptimal, assigned example_val) mm)) = Inr sel
              \<and> [0, 2] \<notin> set sel"
    by blast
  with mm feas mem np sim show ?thesis by blast
qed

section \<open>The objective\<close>




section \<open>Solver status\<close>

text \<open>
  Claim C5, as amended. \<open>solve\<close> does not inspect the status the solver returns, it only
  logs it: for any two statuses the run has the same outcome, the same exception or the
  same report but for the logged status. In particular, on a roster with a candidate
  pair of a score other than \<open>0\<close> and for any status, infeasible, not solved and
  unbounded included, a run whose solver gave every variable a value proceeds to result
  extraction and emits its report. Whatever the status, the run raises TypeError when
  the solver left a variable without a value, and when no candidate pair has a score
  other than \<open>0\<close>, the objective then holding only \<open>__dummy\<close>.
\<close>

theorem solve_only_logs_status:
  "\<exists>mm. MatchMaker_init P build rows = Inr mm
     \<and> (\<forall>st st' asg.
           solve P mm (st', asg)
             = map_sum id (\<lambda>r. r\<lparr>rep_status := st'\<rparr>) (solve P mm (st, asg)))
     \<and> ((\<exists>i j. [i, j] \<in> set (possible_matches (match_tracker mm))
               \<and> score_of P (mm_persons mm ! i) (mm_persons mm ! j) \<noteq> 0) \<longrightarrow>
           (\<forall>st val. \<exists>r. solve P mm (st, assigned val) = Inr r \<and> rep_status r = st))
     \<and> (\<not> (\<exists>i j. [i, j] \<in> set (possible_matches (match_tracker mm))
               \<and> score_of P (mm_persons mm ! i) (mm_persons mm ! j) \<noteq> 0) \<longrightarrow>
           (\<forall>st asg. solve P mm (st, asg) = Inl TypeError))
     \<and> (\<forall>st asg. (\<exists>k\<in>set (possible_matches (match_tracker mm)). asg k = None) \<longrightarrow>
           solve P mm (st, asg) = Inl TypeError)"
proof -
  obtain mm where mm: "MatchMaker_init P build rows = Inr mm"
    by (simp add: MatchMaker_init_Inr)
  note f = MatchMaker_init_fields [OF mm]
  let ?pms = "possible_matches_of (length rows)"
  let ?w = "\<lambda>k. score_of P (map build rows ! (k ! 0)) (map build rows ! (k ! 1))"
  have sc: "(\<exists>i j. [i, j] \<in> set (possible_matches (match_tracker mm))
               \<and> score_of P (mm_persons mm ! i) (mm_persons mm ! j) \<noteq> 0)
           \<longleftrightarrow> filter (\<lambda>k. ?w k \<noteq> 0) ?pms \<noteq> []"
    using scored_pair_iff [of "length rows" ?w] by (simp add: f)
  have 1: "\<forall>st st' asg.
           solve P mm (st', asg)
             = map_sum id (\<lambda>r. r\<lparr>rep_status := st'\<rparr>) (solve P mm (st, asg))"
    by (intro allI) (rule solve_status)
  have "\<exists>r. solve P mm (st, assigned val) = Inr r \<and> rep_status r = st"
    if "filter (\<lambda>k. ?w k \<noteq> 0) ?pms \<noteq> []" for st val
    using solve_solved [OF mm that, of st val] by blast
  then have 2: "(\<exists>i j. [i, j] \<in> set (possible_matches (match_tracker mm))
               \<and> score_of P (mm_persons mm ! i) (mm_persons mm ! j) \<noteq> 0) \<longrightarrow>
           (\<forall>st val. \<exists>r. solve P mm (st, assigned val) = Inr r \<and> rep_status r = st)"
    unfolding sc by blast
  have "solve P mm (st, asg) = Inl TypeError"
    if "filter (\<lambda>k. ?w k \<noteq> 0) ?pms = []" for st asg
    using that by (rule solve_no_score [OF mm])
  then have 3: "\<not> (\<exists>i j. [i, j] \<in> set (possible_matches (match_tracker mm))
               \<and> score_of P (mm_persons mm ! i) (mm_persons mm ! j) \<noteq> 0) \<longrightarrow>
           (\<forall>st asg. solve P mm (st, asg) = Inl TypeError)"
    unfolding sc by blast
  have "solve P mm (st, asg) = Inl TypeError"
    if "\<exists>k\<in>set (possible_matches (match_tracker mm)). asg k = None" for st asg
    using that by (intro solve_unassigned [OF mm]) (simp add: f)
  then have 4: "\<forall>st asg. (\<exists>k\<in>set (possible_matches (match_tracker mm)). asg k = None) \<longrightarrow>
           solve P mm (st, asg) = Inl TypeError"
    by (intro allI impI)
  from mm 1 2 3 4 show ?thesis
    by (intro exI [of _ mm] conjI)
qed

theorem solve_only_logs_status_witness:
  "\<exists>mm. MatchMaker_init example_person id example_rows = Inr mm
     \<and> [0, 1] \<in> set (possible_matches (match_tracker mm))
     \<and> score_of example_person (mm_persons mm ! 0) (mm_persons mm ! 1) \<noteq> 0
     \<and> (\<exists>r. solve example_person mm (LpStatusInfeasible, assigned example_val) = Inr r
            \<and> rep_status r = LpStatusInfeasible)
     \<and> ((assigned example_val)([1, 2] := None)) [1, 2] = None
     \<and> solve example_person mm (LpStatusOptimal, (assigned example_val)([1, 2] := None))
         = Inl TypeError"
proof -
  from solve_only_logs_status [of example_person id example_rows]
  obtain mm where mm: "MatchMaker_init example_person id example_rows = Inr mm"
    and run: "(\<exists>i j. [i, j] \<in> set (possible_matches (match_tracker mm))
               \<and> score_of example_person (mm_persons mm ! i) (mm_persons mm ! j) \<noteq> 0) \<longrightarrow>
           (\<forall>st val. \<exists>r. solve example_person mm (st, assigned val) = Inr r
                         \<and> rep_status r = st)"
    and un: "\<forall>st asg. (\<exists>k\<in>set (possible_matches (match_tracker mm)). asg k = None) \<longrightarrow>
           solve example_person mm (st, asg) = Inl TypeError"
    by (elim exE conjE) (rule that, assumption+)
  note f = MatchMaker_init_fields [OF mm]
  have pms: "possible_matches (match_tracker mm)
               = [[0, 1], [0, 2], [1, 2], [0, 0], [1, 1], [2, 2]]"
    unfolding f possible_matches_init length_map example_possible_matches ..
  have mem: "[0, 1] \<in> set (possible_matches (match_tracker mm))"
    unfolding pms by simp
  have sc: "score_of example_person (mm_persons mm ! 0) (mm_persons mm ! 1) \<noteq> 0"
    by (simp add: f example_rows_def example_person_def score_of_def)
  from mem sc have "\<exists>i j. [i, j] \<in> set (possible_matches (match_tracker mm))
               \<and> score_of example_person (mm_persons mm ! i) (mm_persons mm ! j) \<noteq> 0"
    by blast
  with run have "\<forall>st val. \<exists>r. solve example_person mm (st, assigned val) = Inr r
                         \<and> rep_status r = st"
    by (rule mp)
  then have r: "\<exists>r. solve example_person mm (LpStatusInfeasible, assigned example_val) = Inr r
            \<and> rep_status r = LpStatusInfeasible"
    by (elim allE)
  have none: "((assigned example_val)([1, 2] := None)) [1, 2] = None"
    by simp
  have m12: "[1, 2] \<in> set (possible_matches (match_tracker mm))"
    unfolding pms by simp
  have ex: "\<exists>k\<in>set (possible_matches (match_tracker mm)).
              ((assigned example_val)([1, 2] := None)) k = None"
    using none m12 by (intro bexI [of _ "[1, 2]"])
  have t: "solve example_person mm (LpStatusOptimal, (assigned example_val)([1, 2] := None))
         = Inl TypeError"
    by (rule un [rule_format, OF ex])
  from mm mem sc r none t show ?thesis
    by (intro exI [of _ mm] conjI)
qed

text \<open>
  The claim as stated fails on the roster of two participants on which nobody is
  pairable. Its problem has no solution (\<open>barred_infeasible\<close>); with the status
  infeasible and the variables at \<open>0\<close> the run reports a result, no match and two
  people not matched.
\<close>

theorem infeasible_run_reports:
  "solve solo_person barred_mm (LpStatusInfeasible, assigned all_zeros)
     = Inr \<lparr>rep_status = LpStatusInfeasible, rep_mean_score = 0, rep_scores = [],
            rep_day_dict = [], rep_unmatched = [], rep_num = [], rep_num_matches = 0,
            rep_not_matched = 2\<rparr>"
  by code_simp

section \<open>Result extraction\<close>

text \<open>
  Claim C6, as amended. The result extractor selects exactly the candidate pairs whose
  variable value is \<open>> 0\<close> after solving, in the order of the candidate pairs. The
  one-pair-per-participant invariant is not checked and no ResultInconsistencyError is
  raised: whether or not each index appears in exactly one selected pair, \<open>log_matches\<close>
  reports every complete assignment of values as it is, its self-pairs as the unmatched
  participants and its real pairs in the day breakdown, and \<open>solve\<close> returns that
  report on every roster with a candidate pair of a score other than \<open>0\<close>.
\<close>

theorem extraction_selects_positive_values:
  "\<exists>mm. MatchMaker_init P build rows = Inr mm
     \<and> (\<forall>st val.
           get_true_possible_matches (match_tracker (prob_solve (st, assigned val) mm))
             = Inr (filter (\<lambda>k. 0 < val k) (possible_matches (match_tracker mm))))
     \<and> (\<forall>st val. \<exists>day_dict unmatched num sel.
             log_matches P (prob_solve (st, assigned val) mm) = Inr (day_dict, unmatched, num)
           \<and> sel = filter (\<lambda>k. 0 < val k) (possible_matches (match_tracker mm))
           \<and> (\<forall>i. i \<in> set unmatched \<longleftrightarrow> [i, i] \<in> set sel)
           \<and> (\<forall>i j. i \<noteq> j \<longrightarrow>
                 ((\<exists>d pairs. map_of day_dict d = Some pairs \<and> [i, j] \<in> set pairs)
                    \<longleftrightarrow> [i, j] \<in> set sel))
           \<and> ((\<exists>i j. [i, j] \<in> set (possible_matches (match_tracker mm))
                     \<and> score_of P (mm_persons mm ! i) (mm_persons mm ! j) \<noteq> 0) \<longrightarrow>
                 (\<exists>r. solve P mm (st, assigned val) = Inr r
                    \<and> rep_day_dict r = day_dict \<and> rep_unmatched r = unmatched)))"
proof -
  obtain mm where mm: "MatchMaker_init P build rows = Inr mm"
    by (simp add: MatchMaker_init_Inr)
  note f = MatchMaker_init_fields [OF mm]
  let ?pms = "possible_matches_of (length rows)"
  let ?w = "\<lambda>k. score_of P (map build rows ! (k ! 0)) (map build rows ! (k ! 1))"
  have pms: "possible_matches (match_tracker mm) = ?pms"
    by (simp add: f)
  have sc: "(\<exists>i j. [i, j] \<in> set (possible_matches (match_tracker mm))
               \<and> score_of P (mm_persons mm ! i) (mm_persons mm ! j) \<noteq> 0)
           \<longleftrightarrow> filter (\<lambda>k. ?w k \<noteq> 0) ?pms \<noteq> []"
    using scored_pair_iff [of "length rows" ?w] by (simp add: f)
  have ext: "\<forall>st val.
           get_true_possible_matches (match_tracker (prob_solve (st, assigned val) mm))
             = Inr (filter (\<lambda>k. 0 < val k) (possible_matches (match_tracker mm)))"
    unfolding pms by (intro allI) (rule get_true_possible_matches_solved [OF mm])
  have rep: "\<exists>day_dict unmatched num sel.
             log_matches P (prob_solve (st, assigned val) mm) = Inr (day_dict, unmatched, num)
           \<and> sel = filter (\<lambda>k. 0 < val k) (possible_matches (match_tracker mm))
           \<and> (\<forall>i. i \<in> set unmatched \<longleftrightarrow> [i, i] \<in> set sel)
           \<and> (\<forall>i j. i \<noteq> j \<longrightarrow>
                 ((\<exists>d pairs. map_of day_dict d = Some pairs \<and> [i, j] \<in> set pairs)
                    \<longleftrightarrow> [i, j] \<in> set sel))
           \<and> ((\<exists>i j. [i, j] \<in> set (possible_matches (match_tracker mm))
                     \<and> score_of P (mm_persons mm ! i) (mm_persons mm ! j) \<noteq> 0) \<longrightarrow>
                 (\<exists>r. solve P mm (st, assigned val) = Inr r
                    \<and> rep_day_dict r = day_dict \<and> rep_unmatched r = unmatched))"
    for st val
  proof -
    let ?sel = "filter (\<lambda>k. 0 < val k) ?pms"
    let ?Q = "\<lambda>d k. k ! 0 \<noteq> k ! 1
                        \<and> get_day_or_either (day_choice P (map build rows ! (k ! 0)))
                                             (day_choice P (map build rows ! (k ! 1))) = d"
    from log_matches_solved [OF mm, where st = st and val = val]
    obtain dd um nm where lm: "log_matches P (prob_solve (st, assigned val) mm) = Inr (dd, um, nm)"
      and um: "um = map (\<lambda>k. k ! 0) (filter (\<lambda>k. k ! 0 = k ! 1) ?sel)"
      and mpd: "\<forall>d. map_of dd d =
           (let xs = filter (?Q d) ?sel in if xs = [] then None else Some xs)"
      by blast
    have two: "\<exists>a b. k = [a, b]" if "k \<in> set ?sel" for k
    proof -
      from that have "k \<in> set ?pms" by simp
      then show ?thesis by (rule possible_match_cases) blast
    qed
    have 1: "\<forall>i. i \<in> set um \<longleftrightarrow> [i, i] \<in> set ?sel"
    proof
      fix i
      show "i \<in> set um \<longleftrightarrow> [i, i] \<in> set ?sel"
      proof
        assume "i \<in> set um"
        then obtain k where k: "k \<in> set ?sel" and s: "k ! 0 = k ! 1" and i: "i = k ! 0"
          unfolding um by auto
        from two [OF k] obtain a b where "k = [a, b]" by blast
        with s i have "k = [i, i]" by simp
        with k show "[i, i] \<in> set ?sel" by simp
      next
        assume "[i, i] \<in> set ?sel"
        then have "[i, i] \<in> set (filter (\<lambda>k. k ! 0 = k ! 1) ?sel)"
          by simp
        then have "[i, i] ! 0 \<in> set (map (\<lambda>k. k ! 0) (filter (\<lambda>k. k ! 0 = k ! 1) ?sel))"
          unfolding set_map by (rule imageI)
        then show "i \<in> set um"
          unfolding um by simp
      qed
    qed
    have 2: "\<forall>i j. i \<noteq> j \<longrightarrow>
                 ((\<exists>d pairs. map_of dd d = Some pairs \<and> [i, j] \<in> set pairs)
                    \<longleftrightarrow> [i, j] \<in> set ?sel)"
    proof (intro allI impI)
      fix i j :: nat
      assume ne: "i \<noteq> j"
      have "(\<exists>d pairs. map_of dd d = Some pairs \<and> [i, j] \<in> set pairs)
            \<longleftrightarrow> (\<exists>d. [i, j] \<in> set ?sel \<and> ?Q d [i, j])"
        unfolding grouped_iff [OF mpd, symmetric] ..
      also have "\<dots> \<longleftrightarrow> [i, j] \<in> set ?sel"
        using ne by simp
      finally show "(\<exists>d pairs. map_of dd d = Some pairs \<and> [i, j] \<in> set pairs)
                    \<longleftrightarrow> [i, j] \<in> set ?sel" .
    qed
    have "\<exists>r. solve P mm (st, assigned val) = Inr r
                    \<and> rep_day_dict r = dd \<and> rep_unmatched r = um"
      if "filter (\<lambda>k. ?w k \<noteq> 0) ?pms \<noteq> []"
    proof -
      from solve_solved [OF mm that, of st val]
      obtain r where r: "solve P mm (st, assigned val) = Inr r"
        and l: "log_matches P (prob_solve (st, assigned val) mm)
                  = Inr (rep_day_dict r, rep_unmatched r, rep_num r)"
        by blast
      from l lm have "rep_day_dict r = dd \<and> rep_unmatched r = um"
        by simp
      with r show ?thesis by blast
    qed
    then have 3: "(\<exists>i j. [i, j] \<in> set (possible_matches (match_tracker mm))
                     \<and> score_of P (mm_persons mm ! i) (mm_persons mm ! j) \<noteq> 0) \<longrightarrow>
                 (\<exists>r. solve P mm (st, assigned val) = Inr r
                    \<and> rep_day_dict r = dd \<and> rep_unmatched r = um)"
      unfolding sc by (rule impI)
    have s: "?sel = filter (\<lambda>k. 0 < val k) (possible_matches (match_tracker mm))"
      unfolding pms ..
    from lm s 1 2 3 show ?thesis
      unfolding pms
      by (intro exI [of _ dd] exI [of _ um] exI [of _ nm] exI [of _ ?sel] conjI)
  qed
  then have rep': "\<forall>st val. \<exists>day_dict unmatched num sel.
             log_matches P (prob_solve (st, assigned val) mm) = Inr (day_dict, unmatched, num)
           \<and> sel = filter (\<lambda>k. 0 < val k) (possible_matches (match_tracker mm))
           \<and> (\<forall>i. i \<in> set unmatched \<longleftrightarrow> [i, i] \<in> set sel)
           \<and> (\<forall>i j. i \<noteq> j \<longrightarrow>
                 ((\<exists>d pairs. map_of day_dict d = Some pairs \<and> [i, j] \<in> set pairs)
                    \<longleftrightarrow> [i, j] \<in> set sel))
           \<and> ((\<exists>i j. [i, j] \<in> set (possible_matches (match_tracker mm))
                     \<and> score_of P (mm_persons mm ! i) (mm_persons mm ! j) \<noteq> 0) \<longrightarrow>
                 (\<exists>r. solve P mm (st, assigned val) = Inr r
                    \<and> rep_day_dict r = day_dict \<and> rep_unmatched r = unmatched))"
    by (intro allI)
  from mm ext rep' show ?thesis
    by (intro exI [of _ mm] conjI)
qed

theorem extraction_selects_positive_values_witness:
  "\<exists>mm. MatchMaker_init example_person id example_rows = Inr mm
     \<and> [0, 1] \<in> set (possible_matches (match_tracker mm))
     \<and> score_of example_person (mm_persons mm ! 0) (mm_persons mm ! 1) \<noteq> 0
     \<and> (0::nat) \<noteq> 1
     \<and> (\<exists>r. solve example_person mm (LpStatusOptimal, assigned all_ones) = Inr r
            \<and> 0 \<in> set (rep_unmatched r)
            \<and> (\<exists>d pairs. map_of (rep_day_dict r) d = Some pairs \<and> [0, 1] \<in> set pairs))"
proof -
  from extraction_selects_positive_values [of example_person id example_rows]
  obtain mm where mm: "MatchMaker_init example_person id example_rows = Inr mm"
    and rep: "\<forall>st val. \<exists>day_dict unmatched num sel.
             log_matches example_person (prob_solve (st, assigned val) mm)
               = Inr (day_dict, unmatched, num)
           \<and> sel = filter (\<lambda>k. 0 < val k) (possible_matches (match_tracker mm))
           \<and> (\<forall>i. i \<in> set unmatched \<longleftrightarrow> [i, i] \<in> set sel)
           \<and> (\<forall>i j. i \<noteq> j \<longrightarrow>
                 ((\<exists>d pairs. map_of day_dict d = Some pairs \<and> [i, j] \<in> set pairs)
                    \<longleftrightarrow> [i, j] \<in> set sel))
           \<and> ((\<exists>i j. [i, j] \<in> set (possible_matches (match_tracker mm))
                     \<and> score_of example_person (mm_persons mm ! i) (mm_persons mm ! j) \<noteq> 0) \<longrightarrow>
                 (\<exists>r. solve example_person mm (st, assigned val) = Inr r
                    \<and> rep_day_dict r = day_dict \<and> rep_unmatched r = unmatched))"
    by (elim exE conjE) (rule that, assumption+)
  note f = MatchMaker_init_fields [OF mm]
  have pms: "possible_matches (match_tracker mm)
               = [[0, 1], [0, 2], [1, 2], [0, 0], [1, 1], [2, 2]]"
    unfolding f possible_matches_init length_map example_possible_matches ..
  have mem: "[0, 1] \<in> set (possible_matches (match_tracker mm))"
    unfolding pms by simp
  have sc: "score_of example_person (mm_persons mm ! 0) (mm_persons mm ! 1) \<noteq> 0"
    by (simp add: f example_rows_def example_person_def score_of_def)
  have ne: "(0::nat) \<noteq> 1"
    by simp
  have sel: "filter (\<lambda>k. 0 < all_ones k) (possible_matches (match_tracker mm))
               = [[0, 1], [0, 2], [1, 2], [0, 0], [1, 1], [2, 2]]"
    unfolding pms by (simp add: all_ones_def)
  from mem sc have scored: "\<exists>i j. [i, j] \<in> set (possible_matches (match_tracker mm))
               \<and> score_of example_person (mm_persons mm ! i) (mm_persons mm ! j) \<noteq> 0"
    by blast
  from rep [rule_format, of LpStatusOptimal all_ones]
  obtain dd um s where
        s: "s = filter (\<lambda>k. 0 < all_ones k) (possible_matches (match_tracker mm))"
    and um0: "\<forall>i. i \<in> set um \<longleftrightarrow> [i, i] \<in> set s"
    and dd0: "\<forall>i j. i \<noteq> j \<longrightarrow>
                   ((\<exists>d pairs. map_of dd d = Some pairs \<and> [i, j] \<in> set pairs)
                      \<longleftrightarrow> [i, j] \<in> set s)"
    and run: "(\<exists>i j. [i, j] \<in> set (possible_matches (match_tracker mm))
                     \<and> score_of example_person (mm_persons mm ! i) (mm_persons mm ! j) \<noteq> 0) \<longrightarrow>
                 (\<exists>r. solve example_person mm (LpStatusOptimal, assigned all_ones) = Inr r
                    \<and> rep_day_dict r = dd \<and> rep_unmatched r = um)"
    by (elim exE conjE) (rule that, assumption+)
  note um = um0 [unfolded s sel]
  note dd = dd0 [unfolded s sel]
  from run scored
  have "\<exists>r. solve example_person mm (LpStatusOptimal, assigned all_ones) = Inr r
                    \<and> rep_day_dict r = dd \<and> rep_unmatched r = um"
    by (rule mp)
  then obtain r
    where r: "solve example_person mm (LpStatusOptimal, assigned all_ones) = Inr r"
      and rd: "rep_day_dict r = dd" and ru: "rep_unmatched r = um"
    by (elim exE conjE) (rule that, assumption+)
  from um have 1: "0 \<in> set (rep_unmatched r)"
    unfolding ru by simp
  from dd [rule_format, of 0 1]
  have 2: "\<exists>d pairs. map_of (rep_day_dict r) d = Some pairs \<and> [0, 1] \<in> set pairs"
    unfolding rd by simp
  from r 1 2
  have "\<exists>r. solve example_person mm (LpStatusOptimal, assigned all_ones) = Inr r
            \<and> 0 \<in> set (rep_unmatched r)
            \<and> (\<exists>d pairs. map_of (rep_day_dict r) d = Some pairs \<and> [0, 1] \<in> set pairs)"
    by (intro exI [of _ r] conjI)
  with mm mem sc ne show ?thesis
    by (intro exI [of _ mm] conjI)
qed

text \<open>
  The claim as stated fails on both kinds of violation. With every variable of the
  three-participant roster at \<open>1\<close>, index \<open>0\<close> is in three selected pairs; with every
  variable of the two-participant roster on which nobody is pairable at \<open>0\<close>, index \<open>0\<close>
  is in none. Both selections are reported.
\<close>

theorem inconsistent_selection_is_reported:
  "get_true_possible_matches
     (match_tracker (prob_solve (LpStatusOptimal, assigned all_ones) example_mm))
     = Inr [[0, 1], [0, 2], [1, 2], [0, 0], [1, 1], [2, 2]]
   \<and> solve example_person example_mm (LpStatusOptimal, assigned all_ones)
     = Inr \<lparr>rep_status = LpStatusOptimal, rep_mean_score = 29 / 15,
            rep_scores = [1, 1, 1, 0, 0, 0],
            rep_day_dict = [(''Monday'', [[0, 1], [1, 2]]), (''Tuesday'', [[0, 2]])],
            rep_unmatched = [0, 1, 2],
            rep_num = [(''Man/Woman'', 2), (''Man/Man'', 1)],
            rep_num_matches = 6, rep_not_matched = - 3\<rparr>
   \<and> get_true_possible_matches
       (match_tracker (prob_solve (LpStatusInfeasible, assigned all_zeros) barred_mm))
     = Inr []
   \<and> solve solo_person barred_mm (LpStatusInfeasible, assigned all_zeros)
     = Inr \<lparr>rep_status = LpStatusInfeasible, rep_mean_score = 0, rep_scores = [],
            rep_day_dict = [], rep_unmatched = [], rep_num = [], rep_num_matches = 0,
            rep_not_matched = 2\<rparr>"
  by code_simp

section \<open>Roster size\<close>

text \<open>
  Claim C7, as amended. Construction makes no check of the roster size and raises no
  InvalidRosterError: for every roster, also one with fewer than two participants, it
  builds the candidate pairs and their variables, the objective and the constraints
  (one coverage constraint per participant, one eligibility constraint per candidate
  pair).
\<close>

theorem construction_builds_every_roster:
  "\<exists>mm. MatchMaker_init P build rows = Inr mm
     \<and> mm_persons mm = map build rows
     \<and> length (possible_matches (match_tracker mm)) = length rows * (length rows + 1) div 2
     \<and> dom (variables (match_tracker mm)) = set (possible_matches (match_tracker mm))
     \<and> objective (prob mm) \<noteq> None
     \<and> length (constraints (prob mm))
         = length rows + length rows * (length rows + 1) div 2"
proof -
  obtain mm where mm: "MatchMaker_init P build rows = Inr mm"
    by (simp add: MatchMaker_init_Inr)
  note f = MatchMaker_init_fields [OF mm]
  have "dom (variables (match_tracker mm)) = set (possible_matches (match_tracker mm))"
    unfolding f by (auto simp: variables_init dom_def)
  moreover have "length (constraints (prob mm))
         = length rows + length rows * (length rows + 1) div 2"
    unfolding f by (simp add: length_possible_matches_of)
  ultimately show ?thesis
    using mm by (intro exI [of _ mm]) (simp add: f length_possible_matches_of)
qed

text \<open>
  The claim as stated fails on the roster of one participant: construction returns the
  model with the single candidate pair \<open>(0, 0)\<close>, its objective and two constraints.
\<close>

theorem small_roster_is_built:
  "length solo_rows < 2
   \<and> MatchMaker_init solo_person id solo_rows = Inr solo_mm
   \<and> possible_matches (match_tracker solo_mm) = [[0, 0]]
   \<and> objective (prob solo_mm)
     = Some \<lparr>expr_terms = [], expr_dummy = Some 0, expr_constant = 0\<rparr>
   \<and> length (constraints (prob solo_mm)) = 2"
proof -
  have "length solo_rows < 2"
    by (simp add: solo_rows_def)
  moreover have "possible_matches (match_tracker solo_mm) = [[0, 0]]"
    by code_simp
  moreover have "objective (prob solo_mm)
     = Some \<lparr>expr_terms = [], expr_dummy = Some 0, expr_constant = 0\<rparr>"
    by code_simp
  moreover have "length (constraints (prob solo_mm)) = 2"
    by code_simp
  ultimately show ?thesis
    using solo_init by simp
qed

section \<open>Reported counts\<close>




section \<open>The day breakdown\<close>

text \<open>
  Claim C9. \<open>log_matches\<close> returns for every complete assignment of values, and every
  selected pair \<open>(i, j)\<close> with \<open>i \<noteq> j\<close> is listed in its day breakdown under exactly one
  key: the common day when the two participants chose the same day, otherwise the day of
  the side that did not choose \<open>Either\<close>, and the day of the first side, participant \<open>i\<close>,
  when both chose a day and the days differ. A run of \<open>solve\<close> that reports, reports this
  day breakdown.
\<close>

theorem day_breakdown_grouping:
  "\<exists>mm. MatchMaker_init P build rows = Inr mm
     \<and> (\<forall>st val. \<exists>day_dict unmatched num sel.
             log_matches P (prob_solve (st, assigned val) mm) = Inr (day_dict, unmatched, num)
             \<and> get_true_possible_matches (match_tracker (prob_solve (st, assigned val) mm)) = Inr sel
             \<and> distinct (map fst day_dict)
             \<and> (\<forall>r. solve P mm (st, assigned val) = Inr r \<longrightarrow> rep_day_dict r = day_dict)
             \<and> (\<forall>i j day1 day2.
                      i \<noteq> j \<and> [i, j] \<in> set sel
                      \<and> day1 = day_choice P (mm_persons mm ! i)
                      \<and> day2 = day_choice P (mm_persons mm ! j) \<longrightarrow>
                      (\<exists>key pairs.
                          map_of day_dict key = Some pairs \<and> [i, j] \<in> set pairs
                        \<and> (\<forall>d pairs'. map_of day_dict d = Some pairs'
                               \<and> [i, j] \<in> set pairs' \<longrightarrow> d = key)
                        \<and> (day1 = day2 \<longrightarrow> key = day1)
                        \<and> (day1 \<noteq> day2 \<and> day1 = ''Either'' \<longrightarrow> key = day2)
                        \<and> (day1 \<noteq> day2 \<and> day2 = ''Either'' \<longrightarrow> key = day1)
                        \<and> (day1 \<noteq> day2 \<and> day1 \<noteq> ''Either'' \<and> day2 \<noteq> ''Either''
                             \<longrightarrow> key = day1))))"
proof -
  obtain mm where mm: "MatchMaker_init P build rows = Inr mm"
    by (simp add: MatchMaker_init_Inr)
  note f = MatchMaker_init_fields [OF mm]
  let ?pms = "possible_matches_of (length rows)"
  let ?ps = "map build rows"
  have run: "\<exists>day_dict unmatched num sel.
             log_matches P (prob_solve (st, assigned val) mm) = Inr (day_dict, unmatched, num)
             \<and> get_true_possible_matches (match_tracker (prob_solve (st, assigned val) mm)) = Inr sel
             \<and> distinct (map fst day_dict)
             \<and> (\<forall>r. solve P mm (st, assigned val) = Inr r \<longrightarrow> rep_day_dict r = day_dict)
             \<and> (\<forall>i j day1 day2.
                      i \<noteq> j \<and> [i, j] \<in> set sel
                      \<and> day1 = day_choice P (mm_persons mm ! i)
                      \<and> day2 = day_choice P (mm_persons mm ! j) \<longrightarrow>
                      (\<exists>key pairs.
                          map_of day_dict key = Some pairs \<and> [i, j] \<in> set pairs
                        \<and> (\<forall>d pairs'. map_of day_dict d = Some pairs'
                               \<and> [i, j] \<in> set pairs' \<longrightarrow> d = key)
                        \<and> (day1 = day2 \<longrightarrow> key = day1)
                        \<and> (day1 \<noteq> day2 \<and> day1 = ''Either'' \<longrightarrow> key = day2)
                        \<and> (day1 \<noteq> day2 \<and> day2 = ''Either'' \<longrightarrow> key = day1)
                        \<and> (day1 \<noteq> day2 \<and> day1 \<noteq> ''Either'' \<and> day2 \<noteq> ''Either''
                             \<longrightarrow> key = day1)))" for st val
  proof -
    let ?sel = "filter (\<lambda>k. 0 < val k) ?pms"
    let ?Q = "\<lambda>d k. k ! 0 \<noteq> k ! 1
                        \<and> get_day_or_either (day_choice P (?ps ! (k ! 0)))
                                             (day_choice P (?ps ! (k ! 1))) = d"
    from log_matches_solved [OF mm, where st = st and val = val]
    obtain dd um nm where lm: "log_matches P (prob_solve (st, assigned val) mm) = Inr (dd, um, nm)"
      and di: "distinct (map fst dd)"
      and mpd: "\<forall>d. map_of dd d =
           (let xs = filter (?Q d) ?sel in if xs = [] then None else Some xs)"
      by (elim exE conjE) (rule that, assumption+)
    have gt: "get_true_possible_matches (match_tracker (prob_solve (st, assigned val) mm))
                 = Inr ?sel"
      by (rule get_true_possible_matches_solved [OF mm])
    have rp: "\<forall>r. solve P mm (st, assigned val) = Inr r \<longrightarrow> rep_day_dict r = dd"
    proof (intro allI impI)
      fix r
      assume r: "solve P mm (st, assigned val) = Inr r"
      from solve_solved [OF mm solve_scored [OF mm r], of st val]
      obtain r' where r': "solve P mm (st, assigned val) = Inr r'"
        and l: "log_matches P (prob_solve (st, assigned val) mm)
                  = Inr (rep_day_dict r', rep_unmatched r', rep_num r')"
        by (elim exE conjE) (rule that, assumption+)
      from r r' have "r' = r"
        by simp
      with l lm show "rep_day_dict r = dd"
        by simp
    qed
    note g = grouped_iff [OF mpd]
    have grp: "\<exists>key pairs.
                       map_of dd key = Some pairs \<and> [i, j] \<in> set pairs
                     \<and> (\<forall>d pairs'. map_of dd d = Some pairs'
                            \<and> [i, j] \<in> set pairs' \<longrightarrow> d = key)
                     \<and> (day1 = day2 \<longrightarrow> key = day1)
                     \<and> (day1 \<noteq> day2 \<and> day1 = ''Either'' \<longrightarrow> key = day2)
                     \<and> (day1 \<noteq> day2 \<and> day2 = ''Either'' \<longrightarrow> key = day1)
                     \<and> (day1 \<noteq> day2 \<and> day1 \<noteq> ''Either'' \<and> day2 \<noteq> ''Either''
                          \<longrightarrow> key = day1)"
      if h: "i \<noteq> j \<and> [i, j] \<in> set ?sel
                   \<and> day1 = day_choice P (mm_persons mm ! i)
                   \<and> day2 = day_choice P (mm_persons mm ! j)" for i j day1 day2
    proof -
      let ?key = "get_day_or_either day1 day2"
      from h have Q: "[i, j] \<in> set ?sel \<and> ?Q ?key [i, j]"
        by (simp add: f)
      then obtain pairs where p: "map_of dd ?key = Some pairs"
        and m: "[i, j] \<in> set pairs"
        unfolding g [symmetric] by blast
      have u: "\<forall>d pairs'. map_of dd d = Some pairs'
                            \<and> [i, j] \<in> set pairs' \<longrightarrow> d = ?key"
      proof (intro allI impI)
        fix d pairs'
        assume "map_of dd d = Some pairs' \<and> [i, j] \<in> set pairs'"
        then have "\<exists>pairs. map_of dd d = Some pairs \<and> [i, j] \<in> set pairs"
          by blast
        then have "?Q d [i, j]"
          unfolding g by simp
        with h show "d = ?key"
          by (simp add: f)
      qed
      have c1: "day1 = day2 \<longrightarrow> ?key = day1"
        and c2: "day1 \<noteq> day2 \<and> day1 = ''Either'' \<longrightarrow> ?key = day2"
        and c3: "day1 \<noteq> day2 \<and> day2 = ''Either'' \<longrightarrow> ?key = day1"
        and c4: "day1 \<noteq> day2 \<and> day1 \<noteq> ''Either'' \<and> day2 \<noteq> ''Either'' \<longrightarrow> ?key = day1"
        using get_day_or_either_cases [of day1 day2] by blast+
      from p m u c1 c2 c3 c4 show ?thesis
        by (intro exI [of _ ?key] exI [of _ pairs] conjI)
    qed
    then have "\<forall>i j day1 day2.
                   i \<noteq> j \<and> [i, j] \<in> set ?sel
                   \<and> day1 = day_choice P (mm_persons mm ! i)
                   \<and> day2 = day_choice P (mm_persons mm ! j) \<longrightarrow>
                   (\<exists>key pairs.
                       map_of dd key = Some pairs \<and> [i, j] \<in> set pairs
                     \<and> (\<forall>d pairs'. map_of dd d = Some pairs'
                            \<and> [i, j] \<in> set pairs' \<longrightarrow> d = key)
                     \<and> (day1 = day2 \<longrightarrow> key = day1)
                     \<and> (day1 \<noteq> day2 \<and> day1 = ''Either'' \<longrightarrow> key = day2)
                     \<and> (day1 \<noteq> day2 \<and> day2 = ''Either'' \<longrightarrow> key = day1)
                     \<and> (day1 \<noteq> day2 \<and> day1 \<noteq> ''Either'' \<and> day2 \<noteq> ''Either''
                          \<longrightarrow> key = day1))"
      by (intro allI impI)
    with lm gt di rp show ?thesis
      by (intro exI [of _ dd] exI [of _ um] exI [of _ nm] exI [of _ ?sel] conjI)
  qed
  then have "\<forall>st val. \<exists>day_dict unmatched num sel.
             log_matches P (prob_solve (st, assigned val) mm) = Inr (day_dict, unmatched, num)
             \<and> get_true_possible_matches (match_tracker (prob_solve (st, assigned val) mm)) = Inr sel
             \<and> distinct (map fst day_dict)
             \<and> (\<forall>r. solve P mm (st, assigned val) = Inr r \<longrightarrow> rep_day_dict r = day_dict)
             \<and> (\<forall>i j day1 day2.
                      i \<noteq> j \<and> [i, j] \<in> set sel
                      \<and> day1 = day_choice P (mm_persons mm ! i)
                      \<and> day2 = day_choice P (mm_persons mm ! j) \<longrightarrow>
                      (\<exists>key pairs.
                          map_of day_dict key = Some pairs \<and> [i, j] \<in> set pairs
                        \<and> (\<forall>d pairs'. map_of day_dict d = Some pairs'
                               \<and> [i, j] \<in> set pairs' \<longrightarrow> d = key)
                        \<and> (day1 = day2 \<longrightarrow> key = day1)
                        \<and> (day1 \<noteq> day2 \<and> day1 = ''Either'' \<longrightarrow> key = day2)
                        \<and> (day1 \<noteq> day2 \<and> day2 = ''Either'' \<longrightarrow> key = day1)
                        \<and> (day1 \<noteq> day2 \<and> day1 \<noteq> ''Either'' \<and> day2 \<noteq> ''Either''
                             \<longrightarrow> key = day1)))"
    by (intro allI)
  with mm show ?thesis
    by (intro exI [of _ mm] conjI)
qed

theorem day_breakdown_grouping_witness:
  "\<exists>mm. MatchMaker_init example_person id example_rows = Inr mm
     \<and> day_choice example_person (mm_persons mm ! 0) = ''Either''
     \<and> day_choice example_person (mm_persons mm ! 1) = ''Monday''
     \<and> day_choice example_person (mm_persons mm ! 2) = ''Tuesday''
     \<and> (\<exists>r. solve example_person mm (LpStatusOptimal, assigned all_ones) = Inr r
            \<and> (\<exists>pairs. map_of (rep_day_dict r) ''Monday'' = Some pairs \<and> [1, 2] \<in> set pairs)
            \<and> (\<exists>pairs. map_of (rep_day_dict r) ''Tuesday'' = Some pairs \<and> [0, 2] \<in> set pairs))"
proof -
  from day_breakdown_grouping [of example_person id example_rows]
  obtain mm where mm: "MatchMaker_init example_person id example_rows = Inr mm"
    and run: "\<forall>st val. \<exists>day_dict unmatched num sel.
             log_matches example_person (prob_solve (st, assigned val) mm) = Inr (day_dict, unmatched, num)
             \<and> get_true_possible_matches (match_tracker (prob_solve (st, assigned val) mm)) = Inr sel
             \<and> distinct (map fst day_dict)
             \<and> (\<forall>r. solve example_person mm (st, assigned val) = Inr r \<longrightarrow> rep_day_dict r = day_dict)
             \<and> (\<forall>i j day1 day2.
                      i \<noteq> j \<and> [i, j] \<in> set sel
                      \<and> day1 = day_choice example_person (mm_persons mm ! i)
                      \<and> day2 = day_choice example_person (mm_persons mm ! j) \<longrightarrow>
                      (\<exists>key pairs.
                          map_of day_dict key = Some pairs \<and> [i, j] \<in> set pairs
                        \<and> (\<forall>d pairs'. map_of day_dict d = Some pairs'
                               \<and> [i, j] \<in> set pairs' \<longrightarrow> d = key)
                        \<and> (day1 = day2 \<longrightarrow> key = day1)
                        \<and> (day1 \<noteq> day2 \<and> day1 = ''Either'' \<longrightarrow> key = day2)
                        \<and> (day1 \<noteq> day2 \<and> day2 = ''Either'' \<longrightarrow> key = day1)
                        \<and> (day1 \<noteq> day2 \<and> day1 \<noteq> ''Either'' \<and> day2 \<noteq> ''Either''
                             \<longrightarrow> key = day1)))"
    by (elim exE conjE) (rule that, assumption+)
  note f = MatchMaker_init_fields [OF mm]
  from mm have mmeq: "mm = example_mm"
    unfolding example_init by simp
  have d0: "day_choice example_person (mm_persons mm ! 0) = ''Either''"
    and d1: "day_choice example_person (mm_persons mm ! 1) = ''Monday''"
    and d2: "day_choice example_person (mm_persons mm ! 2) = ''Tuesday''"
    by (simp_all add: f example_rows_def example_person_def)
  have "solve example_person example_mm (LpStatusOptimal, assigned all_ones)
     = Inr \<lparr>rep_status = LpStatusOptimal, rep_mean_score = 29 / 15,
            rep_scores = [1, 1, 1, 0, 0, 0],
            rep_day_dict = [(''Monday'', [[0, 1], [1, 2]]), (''Tuesday'', [[0, 2]])],
            rep_unmatched = [0, 1, 2],
            rep_num = [(''Man/Woman'', 2), (''Man/Man'', 1)],
            rep_num_matches = 6, rep_not_matched = - 3\<rparr>"
    by code_simp
  then have "\<exists>r. solve example_person mm (LpStatusOptimal, assigned all_ones) = Inr r"
    unfolding mmeq by (rule exI)
  then obtain r where r: "solve example_person mm (LpStatusOptimal, assigned all_ones) = Inr r" ..
  from run [rule_format, of LpStatusOptimal all_ones] obtain dd sel where
    gt: "get_true_possible_matches
               (match_tracker (prob_solve (LpStatusOptimal, assigned all_ones) mm)) = Inr sel"
    and rp: "\<forall>r. solve example_person mm (LpStatusOptimal, assigned all_ones) = Inr r
               \<longrightarrow> rep_day_dict r = dd"
    and grp: "\<forall>i j day1 day2.
                   i \<noteq> j \<and> [i, j] \<in> set sel
                   \<and> day1 = day_choice example_person (mm_persons mm ! i)
                   \<and> day2 = day_choice example_person (mm_persons mm ! j) \<longrightarrow>
                   (\<exists>key pairs.
                       map_of dd key = Some pairs \<and> [i, j] \<in> set pairs
                     \<and> (\<forall>d pairs'. map_of dd d = Some pairs'
                            \<and> [i, j] \<in> set pairs' \<longrightarrow> d = key)
                     \<and> (day1 = day2 \<longrightarrow> key = day1)
                     \<and> (day1 \<noteq> day2 \<and> day1 = ''Either'' \<longrightarrow> key = day2)
                     \<and> (day1 \<noteq> day2 \<and> day2 = ''Either'' \<longrightarrow> key = day1)
                     \<and> (day1 \<noteq> day2 \<and> day1 \<noteq> ''Either'' \<and> day2 \<noteq> ''Either''
                          \<longrightarrow> key = day1))"
    by (elim exE conjE) (rule that, assumption+)
  from rp r have rd: "rep_day_dict r = dd"
    by simp
  have sel: "sel = [[0, 1], [0, 2], [1, 2], [0, 0], [1, 1], [2, 2]]"
    using gt unfolding get_true_possible_matches_solved [OF mm] example_possible_matches
    by (simp add: all_ones_def)
  have m12: "(1::nat) \<noteq> 2 \<and> [1, 2] \<in> set sel
                   \<and> ''Monday'' = day_choice example_person (mm_persons mm ! 1)
                   \<and> ''Tuesday'' = day_choice example_person (mm_persons mm ! 2)"
    unfolding sel d1 d2 by simp
  have m02: "(0::nat) \<noteq> 2 \<and> [0, 2] \<in> set sel
                   \<and> ''Either'' = day_choice example_person (mm_persons mm ! 0)
                   \<and> ''Tuesday'' = day_choice example_person (mm_persons mm ! 2)"
    unfolding sel d0 d2 by simp
  from grp [rule_format, OF m12]
  obtain key pairs where kp: "map_of dd key = Some pairs" "[1, 2] \<in> set pairs"
    and c: "''Monday'' \<noteq> ''Tuesday'' \<and> ''Monday'' \<noteq> ''Either'' \<and> ''Tuesday'' \<noteq> ''Either''
           \<longrightarrow> key = ''Monday''"
    by (elim exE conjE) (rule that, assumption+)
  from c have "key = ''Monday''"
    by simp
  with kp have 1: "\<exists>pairs. map_of (rep_day_dict r) ''Monday'' = Some pairs \<and> [1, 2] \<in> set pairs"
    unfolding rd by (intro exI [of _ pairs]) simp
  from grp [rule_format, OF m02]
  obtain key' pairs' where kp': "map_of dd key' = Some pairs'" "[0, 2] \<in> set pairs'"
    and c': "''Either'' \<noteq> ''Tuesday'' \<and> ''Either'' = ''Either'' \<longrightarrow> key' = ''Tuesday''"
    by (elim exE conjE) (rule that, assumption+)
  from c' have "key' = ''Tuesday''"
    by simp
  with kp' have 2: "\<exists>pairs. map_of (rep_day_dict r) ''Tuesday'' = Some pairs \<and> [0, 2] \<in> set pairs"
    unfolding rd by (intro exI [of _ pairs']) simp
  from mm d0 d1 d2 r 1 2 show ?thesis
    by (intro exI [of _ mm] conjI exI [of _ r])
qed

section \<open>Extraction before the variables have values\<close>

text \<open>
  Claim C10. Result extraction returns only when every decision variable has a value.
  On a freshly built tracker of a non-empty roster, and after any solver outcome that
  leaves some variable without a value, \<open>get_true_possible_matches\<close>, and with it
  \<open>get_matches\<close> and \<open>get_true_variables\<close>, raise TypeError instead of returning an
  empty or partial selection; when every variable has a value they return.
\<close>

theorem extraction_needs_values:
  "\<exists>mm. MatchMaker_init P build rows = Inr mm
     \<and> (rows \<noteq> [] \<longrightarrow>
           get_true_possible_matches (match_tracker mm) = Inl TypeError
         \<and> get_matches (match_tracker mm) = Inl TypeError
         \<and> get_true_variables (match_tracker mm) = Inl TypeError)
     \<and> (\<forall>st asg.
           ((\<exists>k\<in>set (possible_matches (match_tracker mm)). asg k = None) \<longrightarrow>
              get_true_possible_matches (match_tracker (prob_solve (st, asg) mm)) = Inl TypeError
            \<and> get_matches (match_tracker (prob_solve (st, asg) mm)) = Inl TypeError
            \<and> get_true_variables (match_tracker (prob_solve (st, asg) mm)) = Inl TypeError)
         \<and> ((\<forall>k\<in>set (possible_matches (match_tracker mm)). asg k \<noteq> None) \<longrightarrow>
              (\<exists>sel ms vs.
                 get_true_possible_matches (match_tracker (prob_solve (st, asg) mm)) = Inr sel
               \<and> get_matches (match_tracker (prob_solve (st, asg) mm)) = Inr ms
               \<and> get_true_variables (match_tracker (prob_solve (st, asg) mm)) = Inr vs)))"
proof -
  obtain mm where mm: "MatchMaker_init P build rows = Inr mm"
    by (simp add: MatchMaker_init_Inr)
  note f = MatchMaker_init_fields [OF mm]
  let ?pms = "possible_matches_of (length rows)"
  have pms: "possible_matches (match_tracker mm) = ?pms"
    by (simp add: f)
  have fresh: "get_true_possible_matches (match_tracker mm) = Inl TypeError"
    if "rows \<noteq> []"
  proof -
    from that obtain k where "k \<in> set ?pms"
      using possible_matches_of_nonempty [of "length rows"] by (cases ?pms) auto
    then show ?thesis
      unfolding get_true_possible_matches_def f possible_matches_init length_map
      by (intro filterE_Inl) (auto simp: is_true_match_fresh [of _ "map build rows", simplified])
  qed
  have none: "get_true_possible_matches (match_tracker (prob_solve (st, asg) mm)) = Inl TypeError"
    if "\<exists>k\<in>set (possible_matches (match_tracker mm)). asg k = None" for st asg
    unfolding get_true_possible_matches_def tracker_prob_solve pms
    using that unfolding pms
    by (intro filterE_Inl) (auto simp: is_true_match_solved [OF mm] split: option.splits)
  have some: "\<exists>sel ms vs.
                 get_true_possible_matches (match_tracker (prob_solve (st, asg) mm)) = Inr sel
               \<and> get_matches (match_tracker (prob_solve (st, asg) mm)) = Inr ms
               \<and> get_true_variables (match_tracker (prob_solve (st, asg) mm)) = Inr vs"
    if all: "\<forall>k\<in>set (possible_matches (match_tracker mm)). asg k \<noteq> None" for st asg
  proof -
    let ?mt = "match_tracker (prob_solve (st, asg) mm)"
    let ?sel = "filter (\<lambda>k. the (asg k) > 0) ?pms"
    have 1: "get_true_possible_matches ?mt = Inr ?sel"
      unfolding get_true_possible_matches_def tracker_prob_solve pms
      using all unfolding pms
      by (intro filterE_Inr) (auto simp: is_true_match_solved [OF mm])
    have 2: "mapE (people_of (persons ?mt)) ?sel
               = Inr (map (\<lambda>k. (map build rows ! (k ! 0), map build rows ! (k ! 1))) ?sel)"
      by (rule mapE_Inr)
        (simp add: f people_of_possible_match [of _ "map build rows", simplified])
    have 3: "mapE (dict_get (variables ?mt)) ?sel
               = Inr (map (\<lambda>k. (LpVariable_init k (Some 0) (Some 1) LpInteger)\<lparr>varValue := asg k\<rparr>) ?sel)"
      by (rule mapE_Inr) (simp add: dict_get_def variables_prob_solve [OF mm])
    show ?thesis
      unfolding get_matches_def get_true_variables_def 1 bindE_Inr 2 3 by blast
  qed
  have fresh3: "get_true_possible_matches (match_tracker mm) = Inl TypeError
         \<and> get_matches (match_tracker mm) = Inl TypeError
         \<and> get_true_variables (match_tracker mm) = Inl TypeError" if "rows \<noteq> []"
    using fresh [OF that] by (simp add: get_matches_def get_true_variables_def)
  have none3: "get_true_possible_matches (match_tracker (prob_solve (st, asg) mm)) = Inl TypeError
            \<and> get_matches (match_tracker (prob_solve (st, asg) mm)) = Inl TypeError
            \<and> get_true_variables (match_tracker (prob_solve (st, asg) mm)) = Inl TypeError"
    if "\<exists>k\<in>set (possible_matches (match_tracker mm)). asg k = None" for st asg
    using none [OF that] by (simp add: get_matches_def get_true_variables_def)
  have A: "rows \<noteq> [] \<longrightarrow>
           get_true_possible_matches (match_tracker mm) = Inl TypeError
         \<and> get_matches (match_tracker mm) = Inl TypeError
         \<and> get_true_variables (match_tracker mm) = Inl TypeError"
    using fresh3 by (rule impI)
  have B: "((\<exists>k\<in>set (possible_matches (match_tracker mm)). asg k = None) \<longrightarrow>
              get_true_possible_matches (match_tracker (prob_solve (st, asg) mm)) = Inl TypeError
            \<and> get_matches (match_tracker (prob_solve (st, asg) mm)) = Inl TypeError
            \<and> get_true_variables (match_tracker (prob_solve (st, asg) mm)) = Inl TypeError)
         \<and> ((\<forall>k\<in>set (possible_matches (match_tracker mm)). asg k \<noteq> None) \<longrightarrow>
              (\<exists>sel ms vs.
                 get_true_possible_matches (match_tracker (prob_solve (st, asg) mm)) = Inr sel
               \<and> get_matches (match_tracker (prob_solve (st, asg) mm)) = Inr ms
               \<and> get_true_variables (match_tracker (prob_solve (st, asg) mm)) = Inr vs))"
    for st asg
  proof (rule conjI)
    show "(\<exists>k\<in>set (possible_matches (match_tracker mm)). asg k = None) \<longrightarrow>
              get_true_possible_matches (match_tracker (prob_solve (st, asg) mm)) = Inl TypeError
            \<and> get_matches (match_tracker (prob_solve (st, asg) mm)) = Inl TypeError
            \<and> get_true_variables (match_tracker (prob_solve (st, asg) mm)) = Inl TypeError"
      using none3 by (rule impI)
    show "(\<forall>k\<in>set (possible_matches (match_tracker mm)). asg k \<noteq> None) \<longrightarrow>
              (\<exists>sel ms vs.
                 get_true_possible_matches (match_tracker (prob_solve (st, asg) mm)) = Inr sel
               \<and> get_matches (match_tracker (prob_solve (st, asg) mm)) = Inr ms
               \<and> get_true_variables (match_tracker (prob_solve (st, asg) mm)) = Inr vs)"
      using some by (rule impI)
  qed
  show ?thesis
    by (rule exI [of _ mm], rule conjI, rule mm, rule conjI, rule A, intro allI, rule B)
qed

theorem extraction_needs_values_witness:
  "\<exists>mm. MatchMaker_init example_person id example_rows = Inr mm
     \<and> example_rows \<noteq> []
     \<and> get_true_possible_matches (match_tracker mm) = Inl TypeError
     \<and> [1, 2] \<in> set (possible_matches (match_tracker mm))
     \<and> ((assigned example_val)([1, 2] := None)) [1, 2] = None
     \<and> get_matches
          (match_tracker (prob_solve (LpStatusOptimal, (assigned example_val)([1, 2] := None)) mm))
        = Inl TypeError
     \<and> (\<exists>sel. get_true_possible_matches
                  (match_tracker (prob_solve (LpStatusOptimal, assigned example_val) mm))
                = Inr sel)"
proof -
  from extraction_needs_values [of example_person id example_rows]
  obtain mm where mm: "MatchMaker_init example_person id example_rows = Inr mm"
    and fresh: "example_rows \<noteq> [] \<longrightarrow>
           get_true_possible_matches (match_tracker mm) = Inl TypeError
         \<and> get_matches (match_tracker mm) = Inl TypeError
         \<and> get_true_variables (match_tracker mm) = Inl TypeError"
    and solved: "\<And>st asg.
           ((\<exists>k\<in>set (possible_matches (match_tracker mm)). asg k = None) \<longrightarrow>
              get_true_possible_matches (match_tracker (prob_solve (st, asg) mm)) = Inl TypeError
            \<and> get_matches (match_tracker (prob_solve (st, asg) mm)) = Inl TypeError
            \<and> get_true_variables (match_tracker (prob_solve (st, asg) mm)) = Inl TypeError)
         \<and> ((\<forall>k\<in>set (possible_matches (match_tracker mm)). asg k \<noteq> None) \<longrightarrow>
              (\<exists>sel ms vs.
                 get_true_possible_matches (match_tracker (prob_solve (st, asg) mm)) = Inr sel
               \<and> get_matches (match_tracker (prob_solve (st, asg) mm)) = Inr ms
               \<and> get_true_variables (match_tracker (prob_solve (st, asg) mm)) = Inr vs))"
    by blast
  note f = MatchMaker_init_fields [OF mm]
  have ne: "example_rows \<noteq> []"
    by (simp add: example_rows_def)
  with fresh have 1: "get_true_possible_matches (match_tracker mm) = Inl TypeError"
    by blast
  have mem: "[1, 2] \<in> set (possible_matches (match_tracker mm))"
    unfolding f possible_matches_init length_map example_possible_matches by simp
  have none: "((assigned example_val)([1, 2] := None)) [1, 2] = None"
    by simp
  from mem none
  have "\<exists>k\<in>set (possible_matches (match_tracker mm)). ((assigned example_val)([1, 2] := None)) k = None"
    by blast
  with solved [of "(assigned example_val)([1, 2] := None)" LpStatusOptimal]
  have 2: "get_matches
          (match_tracker (prob_solve (LpStatusOptimal, (assigned example_val)([1, 2] := None)) mm))
        = Inl TypeError"
    by blast
  have all: "\<forall>k\<in>set (possible_matches (match_tracker mm)). assigned example_val k \<noteq> None"
    by (simp add: assigned_def)
  with solved [of "assigned example_val" LpStatusOptimal]
  have 3: "\<exists>sel. get_true_possible_matches
                  (match_tracker (prob_solve (LpStatusOptimal, assigned example_val) mm))
                = Inr sel"
    by blast
  from mm ne 1 mem none 2 3 show ?thesis
    by (intro exI [of _ mm]) simp
qed

end
